theory Spec2Isabelle
  imports Main "HOL-Library.Sublist"
begin

section \<open>Python strings\<close>

text \<open>
  A Python \<open>str\<close> is a sequence of Unicode code points, and \<open>len\<close> counts code points.
  A string is modelled as the list of its code points; \<open>py\<close> turns an ASCII literal
  into such a list.
\<close>

type_synonym pystr = "nat list"

definition py :: "string \<Rightarrow> pystr" where
  "py s = map of_char s"

text \<open>The code points that \<open>str.isspace\<close> accepts, which \<open>strip()\<close> and \<open>rstrip()\<close> remove.\<close>

definition isspace :: "nat \<Rightarrow> bool" where
  "isspace c \<longleftrightarrow>
     (9 \<le> c \<and> c \<le> 13) \<or> (28 \<le> c \<and> c \<le> 32) \<or> c = 133 \<or> c = 160 \<or> c = 5760 \<or>
     (8192 \<le> c \<and> c \<le> 8202) \<or> c = 8232 \<or> c = 8233 \<or> c = 8239 \<or> c = 8287 \<or> c = 12288"

definition lstrip :: "pystr \<Rightarrow> pystr" where
  "lstrip s = dropWhile isspace s"

definition rstrip :: "pystr \<Rightarrow> pystr" where
  "rstrip s = rev (dropWhile isspace (rev s))"

definition strip :: "pystr \<Rightarrow> pystr" where
  "strip s = lstrip (rstrip s)"

text \<open>\<open>s.lstrip(cs)\<close> and \<open>s.strip(cs)\<close> with an explicit set of characters.\<close>

definition lstrip_chars :: "pystr \<Rightarrow> pystr \<Rightarrow> pystr" where
  "lstrip_chars cs s = dropWhile (\<lambda>c. c \<in> set cs) s"

definition rstrip_chars :: "pystr \<Rightarrow> pystr \<Rightarrow> pystr" where
  "rstrip_chars cs s = rev (dropWhile (\<lambda>c. c \<in> set cs) (rev s))"

definition strip_chars :: "pystr \<Rightarrow> pystr \<Rightarrow> pystr" where
  "strip_chars cs s = lstrip_chars cs (rstrip_chars cs s)"

definition startswith :: "pystr \<Rightarrow> pystr \<Rightarrow> bool" where
  "startswith s p = prefix p s"

definition endswith :: "pystr \<Rightarrow> pystr \<Rightarrow> bool" where
  "endswith s p = suffix p s"

text \<open>
  Slicing \<open>s[a:b]\<close>: a negative bound counts from the end, and every bound is clamped
  to the string. \<open>None\<close> is an omitted bound.
\<close>

definition slice_bound :: "nat \<Rightarrow> int \<Rightarrow> nat" where
  "slice_bound n i = (if i < 0 then nat (int n + i) else min n (nat i))"

definition py_slice :: "pystr \<Rightarrow> int option \<Rightarrow> int option \<Rightarrow> pystr" where
  "py_slice s a b =
     (let n = length s;
          lo = (case a of None \<Rightarrow> 0 | Some i \<Rightarrow> slice_bound n i);
          hi = (case b of None \<Rightarrow> n | Some i \<Rightarrow> slice_bound n i)
      in take (hi - lo) (drop lo s))"

text \<open>\<open>s.rfind(sub)\<close>: the highest index at which \<open>sub\<close> starts in \<open>s\<close>, or \<open>-1\<close>.\<close>

fun rfind_from :: "pystr \<Rightarrow> pystr \<Rightarrow> nat option" where
  "rfind_from sub [] = (if sub = [] then Some 0 else None)"
| "rfind_from sub (c # s) =
     (case rfind_from sub s of
        Some p \<Rightarrow> Some (Suc p)
      | None \<Rightarrow> if prefix sub (c # s) then Some 0 else None)"

definition rfind :: "pystr \<Rightarrow> pystr \<Rightarrow> int" where
  "rfind s sub = (case rfind_from sub s of None \<Rightarrow> - 1 | Some p \<Rightarrow> int p)"

text \<open>\<open>s.replace(w, "")\<close>: the occurrences of \<open>w\<close> are deleted from left to right.\<close>

function remove_all :: "pystr \<Rightarrow> pystr \<Rightarrow> pystr" where
  "remove_all w [] = []"
| "remove_all w (c # s) =
     (if w \<noteq> [] \<and> prefix w (c # s) then remove_all w (drop (length w) (c # s))
      else c # remove_all w s)"
  by pat_completeness auto
termination
  by (relation "measure (\<lambda>(w, s). length s)") auto

section \<open>Template constants\<close>

definition ACTION :: pystr where
  "ACTION = py ''\<newline>Action:''"

definition ACTION_INPUT :: pystr where
  "ACTION_INPUT = py ''\<newline>Action Input:''"

definition OBSERVATION :: pystr where
  "OBSERVATION = py ''\<newline>Observation:''"

section \<open>Response data types\<close>

datatype RoleEnum = user | assistant | system | function_role | other_role pystr

datatype FinisheReason = FR_stop | FR_length | FR_function_call

record FunctionCall =
  name :: pystr
  arguments :: pystr

record DeltaMessage =
  delta_role :: "RoleEnum option"
  delta_content :: "pystr option"
  delta_function_call :: "FunctionCall option"

record UsageInfo =
  prompt_tokens :: nat
  total_tokens :: nat
  completion_tokens :: nat

record ChatCompletionResponseStreamChoice =
  index :: nat
  delta :: DeltaMessage
  finish_reason :: "FinisheReason option"

text \<open>
  \<open>usage\<close> is \<open>None\<close> where the code constructs the object without a \<open>usage\<close> argument.
\<close>

record StreamResponseObject =
  choices :: "ChatCompletionResponseStreamChoice list"
  usage :: "UsageInfo option"

record ProcessedOutput =
  output_str :: pystr
  output_token_length_po :: nat
  finish_reason_po :: "FinisheReason option"

section \<open>Function-call extraction\<close>

text \<open>\<open>QwenRenderer._parse_function_response\<close>.\<close>

definition parse_function_response :: "pystr \<Rightarrow> DeltaMessage option" where
  "parse_function_response response =
     (let i = rfind response ACTION;
          j = rfind response ACTION_INPUT;
          k = rfind response OBSERVATION;
          (response1, func_name, func_args) =
            (if 0 \<le> i \<and> i < j then
               (let response2 = (if k < j then rstrip response @ OBSERVATION else response);
                    k2 = rfind response2 OBSERVATION
                in (response2,
                    strip (py_slice response2 (Some (i + int (length ACTION))) (Some j)),
                    strip (py_slice response2 (Some (j + int (length ACTION_INPUT))) (Some k2))))
             else (response, [], []))
      in if func_name \<noteq> [] then
           Some \<lparr>delta_role = None,
                 delta_content = Some (py_slice response1 None (Some i)),
                 delta_function_call = Some \<lparr>name = func_name, arguments = func_args\<rparr>\<rparr>
         else None)"

section \<open>The streaming assembler\<close>

text \<open>
  The collaborators of \<open>_process_output_ids_tensor\<close>: the tokenizer's \<open>decode\<close>, the
  end-of-sequence id, the stop words, and the two helpers of the base renderer class,
  \<open>_remove_stop_word_ids\<close> and \<open>_check_finish_reason\<close>, taken as parameters.
\<close>

record renderer =
  decode :: "int list \<Rightarrow> pystr"
  eos_token_id :: int
  stop_words_list :: "pystr list"
  remove_stop_word_ids :: "int list \<Rightarrow> int list"
  check_finish_reason :: "int list \<Rightarrow> FinisheReason option"

text \<open>\<open>QwenRenderer._process_output_ids_tensor\<close>; the tensor is the list of its ids.\<close>

definition process_output_ids_tensor ::
  "renderer \<Rightarrow> nat \<Rightarrow> int list \<Rightarrow> bool \<Rightarrow> ProcessedOutput" where
  "process_output_ids_tensor r input_length output_ids_tensor finished =
     (let output_ids0 = filter (\<lambda>t. t \<noteq> eos_token_id r) output_ids_tensor;
          reason = (if finished then check_finish_reason r output_ids0 else None);
          output_ids1 = drop input_length output_ids0;
          output_len = length output_ids1;
          output_ids2 = remove_stop_word_ids r output_ids1;
          s0 = strip_chars [65533] (decode r output_ids2);
          s1 = fold (\<lambda>stop_word s. remove_all stop_word s) (stop_words_list r) s0
      in \<lparr>output_str = s1, output_token_length_po = output_len, finish_reason_po = reason\<rparr>)"

text \<open>The local variables of \<open>render_response_stream\<close>.\<close>

record stream_vars =
  index_v :: nat
  output_string :: pystr
  output_length :: nat
  responded_string :: pystr
  responded_length :: nat
  output_token_length :: nat
  finish_reason_v :: "FinisheReason option"
  generating_function_call :: bool

definition initial_vars :: stream_vars where
  "initial_vars =
     \<lparr>index_v = 0, output_string = [], output_length = 0, responded_string = [],
      responded_length = 0, output_token_length = 0, finish_reason_v = None,
      generating_function_call = False\<rparr>"

definition usage_info :: "nat \<Rightarrow> nat \<Rightarrow> UsageInfo" where
  "usage_info input_token_length out_token_length =
     \<lparr>prompt_tokens = input_token_length,
      total_tokens = input_token_length + out_token_length,
      completion_tokens = out_token_length\<rparr>"

definition role_delta :: "nat \<Rightarrow> StreamResponseObject" where
  "role_delta idx =
     \<lparr>choices = [\<lparr>index = idx,
                   delta = \<lparr>delta_role = Some assistant, delta_content = None,
                            delta_function_call = None\<rparr>,
                   finish_reason = None\<rparr>],
      usage = None\<rparr>"

definition content_delta ::
  "nat \<Rightarrow> pystr \<Rightarrow> FinisheReason option \<Rightarrow> UsageInfo \<Rightarrow> StreamResponseObject" where
  "content_delta idx text reason u =
     \<lparr>choices = [\<lparr>index = idx,
                   delta = \<lparr>delta_role = None, delta_content = Some text,
                            delta_function_call = None\<rparr>,
                   finish_reason = reason\<rparr>],
      usage = Some u\<rparr>"

text \<open>One iteration of the \<open>async for\<close> loop, on the processed output of one step.\<close>

definition stream_step ::
  "nat \<Rightarrow> stream_vars \<Rightarrow> ProcessedOutput \<Rightarrow> stream_vars \<times> StreamResponseObject list" where
  "stream_step input_token_length s po =
     (let announce = (if output_token_length s = 0 then [role_delta (index_v s)] else []);
          s1 = s\<lparr>output_string := strip (output_str po),
                 output_length := length (output_str po),
                 finish_reason_v := finish_reason_po po,
                 output_token_length := output_token_length_po po\<rparr>
      in if endswith (output_string s1) ACTION then
           (s1\<lparr>generating_function_call := True\<rparr>, announce)
         else if generating_function_call s1 then (s1, announce)
         else if output_length s1 > responded_length s1 + length ACTION then
           (let cut = int (output_length s1) - int (length (py ''Action:''));
                delta_string =
                  py_slice (output_string s1) (Some (int (responded_length s1))) (Some cut);
                responded = py_slice (output_string s1) None (Some cut);
                s2 = s1\<lparr>responded_string := responded, responded_length := length responded\<rparr>
            in (s2, announce @
                  [content_delta (index_v s2) delta_string None
                     (usage_info input_token_length (output_token_length s2))]))
         else (s1, announce))"

fun stream_loop ::
  "nat \<Rightarrow> stream_vars \<Rightarrow> ProcessedOutput list \<Rightarrow> stream_vars \<times> StreamResponseObject list" where
  "stream_loop input_token_length s [] = (s, [])"
| "stream_loop input_token_length s (po # pos) =
     (let (s1, ev1) = stream_step input_token_length s po;
          (s2, ev2) = stream_loop input_token_length s1 pos
      in (s2, ev1 @ ev2))"

text \<open>The code after the loop: function-call delta, final flush, terminal delta.\<close>

definition stream_finish :: "nat \<Rightarrow> stream_vars \<Rightarrow> StreamResponseObject list" where
  "stream_finish input_token_length s =
     (let u = usage_info input_token_length (output_token_length s);
          (s1, ev1) =
            (if generating_function_call s then
               (case parse_function_response
                       (py_slice (output_string s) (Some (int (responded_length s))) None) of
                  None \<Rightarrow> (s, [])
                | Some function_message \<Rightarrow>
                    (s\<lparr>finish_reason_v := Some FR_function_call,
                       responded_string := output_string s,
                       responded_length := output_length s\<rparr>,
                     [\<lparr>choices = [\<lparr>index = index_v s, delta = function_message,
                                    finish_reason = Some FR_function_call\<rparr>],
                       usage = Some u\<rparr>]))
             else (s, []));
          s2 = (if finish_reason_v s1 = None then s1\<lparr>finish_reason_v := Some FR_stop\<rparr> else s1);
          (s3, ev3) =
            (if responded_length s2 < output_length s2 then
               (s2\<lparr>index_v := index_v s2 + 1\<rparr>,
                [content_delta (index_v s2 + 1)
                   (py_slice (output_string s2) (Some (int (responded_length s2))) None) None u])
             else (s2, []))
      in ev1 @ ev3 @ [content_delta (index_v s3 + 1) [] (finish_reason_v s3) u])"

text \<open>
  \<open>QwenRenderer.render_response_stream\<close>: the generator's outputs are the id lists of
  the successive steps; the result is the list of the yielded objects.
\<close>

definition render_response_stream ::
  "renderer \<Rightarrow> int list list \<Rightarrow> nat \<Rightarrow> StreamResponseObject list" where
  "render_response_stream r outputs input_token_length =
     (let pos = map (\<lambda>ids. process_output_ids_tensor r input_token_length ids False) outputs;
          (s, evs) = stream_loop input_token_length initial_vars pos
      in evs @ stream_finish input_token_length s)"

section \<open>Requests\<close>

text \<open>
  \<open>content\<close> and \<open>function_call\<close> are optional in a \<open>ChatMessage\<close>. The optional
  display names of a function definition fall back to \<open>name\<close> when absent or empty;
  \<open>parameters\<close> is the text that \<open>json.dumps\<close> produces for the schema.
\<close>

record ChatMessage =
  role :: RoleEnum
  content :: "pystr option"
  function_call :: "FunctionCall option"

record GPTFunctionDefinition =
  fd_name :: pystr
  name_for_model :: "pystr option"
  name_for_human :: "pystr option"
  description :: pystr
  description_for_model :: "pystr option"
  parameters :: pystr

record ChatCompletionRequest =
  messages :: "ChatMessage list"
  functions_list :: "GPTFunctionDefinition list option"

text \<open>
  The exceptions that \<open>parse_messages\<close> can raise. The messages of \<open>ValueError\<close>:
  \<^item> \<open>NoUserMessage\<close>: ``At least one message must be from user.''
  \<^item> \<open>AssistantBeforeFunction\<close>: ``Invalid request: Expecting role assistant before role function.''
  \<^item> \<open>UserBeforeAssistant\<close>: ``Invalid request: Expecting role user before role assistant.''
  \<^item> \<open>IncorrectRole r\<close>: ``Invalid request: Incorrect role r.''
  \<^item> \<open>OneUserBeforeAssistant\<close>: ``Invalid request: Expecting exactly one user (or function)
    role before every assistant role.''
\<close>

datatype error_message =
  NoUserMessage
| AssistantBeforeFunction
| UserBeforeAssistant
| IncorrectRole RoleEnum
| OneUserBeforeAssistant

datatype error = ValueError error_message | IndexError | AssertionError

text \<open>\<open>query\<close> is either the sentinel object \<open>_TEXT_COMPLETION_CMD\<close> or a string.\<close>

datatype query = TEXT_COMPLETION_CMD | Str pystr

section \<open>Prompt templates\<close>

definition join :: "pystr \<Rightarrow> pystr list \<Rightarrow> pystr" where
  "join sep xs = (case xs of [] \<Rightarrow> [] | x # rest \<Rightarrow> x @ concat (map (\<lambda>y. sep @ y) rest))"

text \<open>\<open>TOOL_DESC.format(...)\<close> and \<open>REACT_INSTRUCTION.format(...)\<close>.\<close>

definition TOOL_DESC :: "pystr \<Rightarrow> pystr \<Rightarrow> pystr \<Rightarrow> pystr \<Rightarrow> pystr" where
  "TOOL_DESC name_m name_h desc_m params =
     name_m @ py '': Call this tool to interact with the '' @ name_h @
     py '' API. What is the '' @ name_h @ py '' API useful for? '' @ desc_m @
     py '' Parameters: '' @ params"

definition REACT_INSTRUCTION :: "pystr \<Rightarrow> pystr \<Rightarrow> pystr" where
  "REACT_INSTRUCTION tools_text tools_name_text =
     py ''Answer the following questions as best you can. You have access to the following APIs:\<newline>\<newline>'' @
     tools_text @
     py ''\<newline>\<newline>Use the following format:\<newline>\<newline>Question: the input question you must answer\<newline>'' @
     py ''Thought: you should always think about what to do\<newline>'' @
     py ''Action: the action to take, should be one of ['' @ tools_name_text @ py '']\<newline>'' @
     py ''Action Input: the input to the action\<newline>'' @
     py ''Observation: the result of the action\<newline>'' @
     py ''... (this Thought/Action/Action Input/Observation can be repeated zero or more times)\<newline>'' @
     py ''Thought: I now know the final answer\<newline>'' @
     py ''Final Answer: the final answer to the original input question\<newline>\<newline>Begin!''"

text \<open>
  \<open>DUMMY_THOUGHT\<close>, in the order of the dictionary. The Chinese text is given by its
  code points.
\<close>

definition DUMMY_THOUGHT_en :: pystr where
  "DUMMY_THOUGHT_en = py ''\<newline>Thought: I now know the final answer.\<newline>Final answer: ''"

definition DUMMY_THOUGHT_zh :: pystr where
  "DUMMY_THOUGHT_zh =
     py ''\<newline>Thought: '' @ [25105, 20250, 20316, 31572, 20102, 12290] @ py ''\<newline>Final answer: ''"

definition DUMMY_THOUGHT_values :: "pystr list" where
  "DUMMY_THOUGHT_values = [DUMMY_THOUGHT_en, DUMMY_THOUGHT_zh]"

definition default_system :: pystr where
  "default_system = py ''You are a helpful assistant.''"

definition QUESTION :: pystr where
  "QUESTION = py ''\<newline>\<newline>Question: ''"

section \<open>The conversation normalizer\<close>

text \<open>The test for Chinese script: some code point lies between U+4E00 and U+9FFF.\<close>

definition has_zh :: "pystr \<Rightarrow> bool" where
  "has_zh s = list_ex (\<lambda>c. 19968 \<le> c \<and> c \<le> 40959) s"

text \<open>\<open>x or y\<close> on an optional string, and the truth value of an optional list.\<close>

definition or_else :: "pystr option \<Rightarrow> pystr \<Rightarrow> pystr" where
  "or_else x y = (case x of None \<Rightarrow> y | Some s \<Rightarrow> if s = [] then y else s)"

definition truthy :: "'a list option \<Rightarrow> bool" where
  "truthy xs = (case xs of None \<Rightarrow> False | Some l \<Rightarrow> l \<noteq> [])"

text \<open>The first block: the leading system message is popped.\<close>

definition extract_system :: "ChatMessage list \<Rightarrow> error + (pystr \<times> ChatMessage list)" where
  "extract_system msgs =
     (case msgs of
        [] \<Rightarrow> Inl IndexError
      | m # rest \<Rightarrow>
          if role m = system then
            (case content m of
               None \<Rightarrow> Inl AssertionError
             | Some s \<Rightarrow> Inr (if s = default_system then [] else s, rest))
          else Inr ([], msgs))"

text \<open>The \<open>if functions:\<close> block: the tool descriptions are appended to \<open>system\<close>.\<close>

definition tool_text :: "GPTFunctionDefinition \<Rightarrow> pystr" where
  "tool_text func_info =
     (let name_m = or_else (name_for_model func_info) (fd_name func_info);
          name_h = or_else (name_for_human func_info) (fd_name func_info);
          desc_m = or_else (description_for_model func_info) (description func_info)
      in TOOL_DESC name_m name_h desc_m (parameters func_info))"

definition tool_name :: "GPTFunctionDefinition \<Rightarrow> pystr" where
  "tool_name func_info = or_else (name_for_model func_info) (fd_name func_info)"

definition fold_functions :: "pystr \<Rightarrow> GPTFunctionDefinition list option \<Rightarrow> pystr" where
  "fold_functions sys fs =
     (case fs of
        None \<Rightarrow> sys
      | Some l \<Rightarrow>
          if l = [] then sys
          else
            (let tools_text = join (py ''\<newline>\<newline>'') (map tool_text l);
                 tools_name_text = join (py '', '') (map tool_name l)
             in rstrip (lstrip_chars [10]
                  (sys @ py ''\<newline>\<newline>'' @ REACT_INSTRUCTION tools_text tools_name_text))))"

text \<open>
  The loop over \<open>_messages\<close>. The rebuilt list \<open>messages\<close> holds messages of role user
  or assistant with a string content, kept as pairs of role and content; \<open>rest = []\<close>
  is the test \<open>m_idx == len(_messages) - 1\<close>.
\<close>

definition append_content :: "(RoleEnum \<times> pystr) list \<Rightarrow> pystr \<Rightarrow> (RoleEnum \<times> pystr) list" where
  "append_content acc text = butlast acc @ [(fst (last acc), snd (last acc) @ text)]"

definition assistant_content :: "bool \<Rightarrow> pystr \<Rightarrow> ChatMessage \<Rightarrow> pystr" where
  "assistant_content with_functions last_msg m =
     (let content0 = or_else (content m) [];
          last_msg_has_zh = has_zh last_msg
      in case function_call m of
           None \<Rightarrow>
             if with_functions then
               (if last_msg_has_zh then DUMMY_THOUGHT_zh else DUMMY_THOUGHT_en) @ content0
             else content0
         | Some func_call \<Rightarrow>
             (let f_name = name func_call; f_args = arguments func_call;
                  content1 =
                    (if content0 = [] then
                       (if last_msg_has_zh then
                          py ''Thought: '' @ [25105, 21487, 20197, 20351, 29992] @ py '' '' @
                          f_name @ py '' API'' @ [12290]
                        else py ''Thought: I can use '' @ f_name @ py ''.'')
                     else content0)
              in py ''\<newline>'' @ content1 @ py ''\<newline>Action: '' @ f_name @
                 py ''\<newline>Action Input: '' @ f_args))"

fun normalize ::
  "bool \<Rightarrow> ChatMessage list \<Rightarrow> (RoleEnum \<times> pystr) list \<Rightarrow> error + (RoleEnum \<times> pystr) list" where
  "normalize with_functions [] acc = Inr acc"
| "normalize with_functions (m # rest) acc =
     (if role m = function_role then
        (if acc = [] \<or> fst (last acc) \<noteq> assistant then
           Inl (ValueError AssistantBeforeFunction)
         else
           (let acc1 = append_content acc (py ''\<newline>Observation: '' @ or_else (content m) []);
                acc2 = (if rest = [] then append_content acc1 (py ''\<newline>Thought:'') else acc1)
            in normalize with_functions rest acc2))
      else if role m = assistant then
        (if acc = [] then Inl (ValueError UserBeforeAssistant)
         else
           (let text = assistant_content with_functions (snd (last acc)) m
            in if fst (last acc) = user then
                 normalize with_functions rest
                   (acc @ [(assistant, rstrip (lstrip_chars [10] text))])
               else normalize with_functions rest (append_content acc text)))
      else if role m = user then
        normalize with_functions rest
          (acc @ [(user, rstrip (lstrip_chars [10] (or_else (content m) [])))])
      else Inl (ValueError (IncorrectRole (role m))))"

text \<open>The loop over \<open>DUMMY_THOUGHT.values()\<close> inside the history loop.\<close>

definition remove_dummy_thought :: "pystr \<Rightarrow> pystr \<Rightarrow> pystr" where
  "remove_dummy_thought t0 bot_msg =
     (let t = lstrip_chars [10] t0
      in if startswith bot_msg t \<and> sublist (py ''\<newline>Action: '') bot_msg then
           py_slice bot_msg (Some (int (length t))) None
         else bot_msg)"

text \<open>
  The loop \<open>for i in range(0, len(messages), 2)\<close>. With one message left, \<open>messages[i + 1]\<close>
  is evaluated only when \<open>messages[i].role == "user"\<close> holds, and is then out of range;
  \<open>rest = []\<close> is the test \<open>i == len(messages) - 2\<close>.
\<close>

fun build_history ::
  "pystr \<Rightarrow> (RoleEnum \<times> pystr) list \<Rightarrow> (pystr \<times> pystr) list \<Rightarrow>
   error + (pystr \<times> (pystr \<times> pystr) list)" where
  "build_history sys [] history = Inr (sys, history)"
| "build_history sys [m] history =
     (if fst m = user then Inl IndexError else Inl (ValueError OneUserBeforeAssistant))"
| "build_history sys (m1 # m2 # rest) history =
     (if fst m1 = user \<and> fst m2 = assistant then
        (let usr_msg0 = rstrip (lstrip_chars [10] (snd m1));
             bot_msg0 = rstrip (lstrip_chars [10] (snd m2));
             prefixed = (sys \<noteq> [] \<and> rest = []);
             usr_msg = (if prefixed then sys @ QUESTION @ usr_msg0 else usr_msg0);
             sys1 = (if prefixed then [] else sys);
             bot_msg = fold remove_dummy_thought DUMMY_THOUGHT_values bot_msg0
         in build_history sys1 rest (history @ [(usr_msg, bot_msg)]))
      else Inl (ValueError OneUserBeforeAssistant))"

text \<open>\<open>QwenRenderer.parse_messages\<close>.\<close>

definition parse_messages ::
  "ChatMessage list \<Rightarrow> GPTFunctionDefinition list option \<Rightarrow>
   error + (query \<times> (pystr \<times> pystr) list)" where
  "parse_messages msgs fs =
     (if list_all (\<lambda>m. role m \<noteq> user) msgs then Inl (ValueError NoUserMessage)
      else
        (case extract_system msgs of
           Inl e \<Rightarrow> Inl e
         | Inr (system0, msgs1) \<Rightarrow>
             (case normalize (truthy fs) msgs1 [] of
                Inl e \<Rightarrow> Inl e
              | Inr normalized \<Rightarrow>
                  if normalized = [] then Inl IndexError
                  else
                    (let q = (if fst (last normalized) = user
                              then Str (snd (last normalized)) else TEXT_COMPLETION_CMD);
                         remaining = (if fst (last normalized) = user
                                      then butlast normalized else normalized)
                     in case build_history (fold_functions system0 fs) remaining [] of
                          Inl e \<Rightarrow> Inl e
                        | Inr (sys, history) \<Rightarrow>
                            if sys \<noteq> [] then
                              (case q of
                                 TEXT_COMPLETION_CMD \<Rightarrow> Inl AssertionError
                               | Str text \<Rightarrow> Inr (Str (sys @ QUESTION @ text), history))
                            else Inr (q, history)))))"

section \<open>The template renderer\<close>

text \<open>
  The tokenizer is a collaborator: \<open>encode\<close> is the call with the default arguments,
  \<open>encode_plain\<close> the call with \<open>allowed_special=set()\<close>.
\<close>

record QWenTokenizer =
  encode :: "pystr \<Rightarrow> int list"
  encode_plain :: "pystr \<Rightarrow> int list"
  im_start_id :: int
  im_end_id :: int

definition im_start :: pystr where
  "im_start = py ''<|im_start|>''"

definition im_end :: pystr where
  "im_end = py ''<|im_end|>''"

text \<open>The inner function \<open>_tokenize_str\<close> of \<open>make_context\<close>.\<close>

definition tokenize_str :: "QWenTokenizer \<Rightarrow> pystr \<Rightarrow> pystr \<Rightarrow> pystr \<times> int list" where
  "tokenize_str tokenizer r text =
     (r @ py ''\<newline>'' @ text,
      encode_plain tokenizer r @ encode tokenizer (py ''\<newline>'') @ encode_plain tokenizer text)"

text \<open>The tokens and the text of one history turn, as built in the loop body.\<close>

definition turn_tokens :: "QWenTokenizer \<Rightarrow> pystr \<times> pystr \<Rightarrow> int list" where
  "turn_tokens tokenizer turn =
     (let nl_tokens = encode tokenizer (py ''\<newline>'');
          query_tokens = [im_start_id tokenizer] @ snd (tokenize_str tokenizer (py ''user'') (fst turn))
                         @ [im_end_id tokenizer];
          response_tokens = [im_start_id tokenizer]
                         @ snd (tokenize_str tokenizer (py ''assistant'') (snd turn))
                         @ [im_end_id tokenizer]
      in nl_tokens @ query_tokens @ nl_tokens @ response_tokens)"

definition turn_text :: "QWenTokenizer \<Rightarrow> pystr \<times> pystr \<Rightarrow> pystr" where
  "turn_text tokenizer turn =
     py ''\<newline>'' @ im_start @ fst (tokenize_str tokenizer (py ''user'') (fst turn)) @ im_end @
     py ''\<newline>'' @ im_start @ fst (tokenize_str tokenizer (py ''assistant'') (snd turn)) @ im_end"

text \<open>
  The loop \<open>for turn_query, turn_response in reversed(history)\<close>, on the reversed
  history, with the accumulators \<open>context_tokens\<close> and \<open>raw_text\<close>; \<open>break\<close> returns
  them as they are.
\<close>

fun window_loop ::
  "QWenTokenizer \<Rightarrow> nat \<Rightarrow> int \<Rightarrow> (pystr \<times> pystr) list \<Rightarrow> int list \<Rightarrow> pystr \<Rightarrow>
   int list \<times> pystr" where
  "window_loop tokenizer system_len max_window_size [] context_tokens raw_text =
     (context_tokens, raw_text)"
| "window_loop tokenizer system_len max_window_size (turn # older) context_tokens raw_text =
     (let next_context_tokens = turn_tokens tokenizer turn;
          prev_chat = turn_text tokenizer turn;
          current_context_size =
            system_len + length next_context_tokens + length context_tokens
      in if int current_context_size < max_window_size then
           window_loop tokenizer system_len max_window_size older
             (next_context_tokens @ context_tokens) (prev_chat @ raw_text)
         else (context_tokens, raw_text))"

definition system_tokens_of :: "QWenTokenizer \<Rightarrow> pystr \<Rightarrow> int list" where
  "system_tokens_of tokenizer sys =
     [im_start_id tokenizer] @ snd (tokenize_str tokenizer (py ''system'') sys) @ [im_end_id tokenizer]"

definition query_tokens_of :: "QWenTokenizer \<Rightarrow> pystr \<Rightarrow> int list" where
  "query_tokens_of tokenizer q =
     encode tokenizer (py ''\<newline>'') @ [im_start_id tokenizer] @
     snd (tokenize_str tokenizer (py ''user'') q) @ [im_end_id tokenizer] @
     encode tokenizer (py ''\<newline>'') @ [im_start_id tokenizer] @
     encode tokenizer (py ''assistant'') @ encode tokenizer (py ''\<newline>'')"

definition make_context ::
  "QWenTokenizer \<Rightarrow> pystr \<Rightarrow> (pystr \<times> pystr) list \<Rightarrow> pystr \<Rightarrow> int \<Rightarrow> pystr \<times> int list" where
  "make_context tokenizer q history sys max_window_size =
     (let system_text = fst (tokenize_str tokenizer (py ''system'') sys);
          system_tokens = system_tokens_of tokenizer sys;
          (context_tokens, raw_text) =
            window_loop tokenizer (length system_tokens) max_window_size (rev history) [] []
      in (im_start @ system_text @ im_end @ raw_text @
            py ''\<newline>'' @ im_start @ py ''user\<newline>'' @ q @ im_end @
            py ''\<newline>'' @ im_start @ py ''assistant\<newline>'',
          system_tokens @ context_tokens @ query_tokens_of tokenizer q))"

text \<open>\<open>QwenRenderer.text_complete_last_message\<close>.\<close>

definition text_complete_last_message :: "QWenTokenizer \<Rightarrow> (pystr \<times> pystr) list \<Rightarrow> int list" where
  "text_complete_last_message tokenizer history =
     (let prompt0 = im_start @ py ''system\<newline>You are a helpful assistant.'' @ im_end;
          prompt1 = fold (\<lambda>turn prompt.
                       prompt @ py ''\<newline>'' @ im_start @ py ''user\<newline>'' @
                       rstrip (lstrip_chars [10] (fst turn)) @ im_end @
                       py ''\<newline>'' @ im_start @ py ''assistant\<newline>'' @
                       rstrip (lstrip_chars [10] (snd turn)) @ im_end) history prompt0
      in encode tokenizer (py_slice prompt1 None (Some (- int (length im_end)))))"

text \<open>\<open>QwenRenderer.render_chat\<close>; the result is the \<open>input_ids\<close> of the rendered inputs.\<close>

definition render_chat :: "QWenTokenizer \<Rightarrow> ChatCompletionRequest \<Rightarrow> error + int list" where
  "render_chat tokenizer request =
     (case parse_messages (messages request) (functions_list request) of
        Inl e \<Rightarrow> Inl e
      | Inr (q, history) \<Rightarrow>
          (case q of
             TEXT_COMPLETION_CMD \<Rightarrow> Inr (text_complete_last_message tokenizer history)
           | Str text \<Rightarrow>
               Inr (snd (make_context tokenizer text history default_system 6144))))"

section \<open>Markers\<close>

text \<open>
  The three markers of the extraction start with a newline and hold no other newline;
  the proofs about \<open>rfind\<close> use this.
\<close>

definition marker :: "pystr \<Rightarrow> bool" where
  "marker m \<longleftrightarrow> m \<noteq> [] \<and> hd m = 10 \<and> 10 \<notin> set (tl m)"

section \<open>Example inputs\<close>

definition example_renderer :: renderer where
  "example_renderer =
     \<lparr>decode = map nat, eos_token_id = 0, stop_words_list = [py ''Observation:''],
      remove_stop_word_ids = (\<lambda>ids. ids), check_finish_reason = (\<lambda>ids. None)\<rparr>"

definition ids_of :: "string \<Rightarrow> int list" where
  "ids_of s = map of_char s"

definition example_output :: ProcessedOutput where
  "example_output = \<lparr>output_str = py ''abcdefghij'', output_token_length_po = 3, finish_reason_po = None\<rparr>"

definition latch_output :: ProcessedOutput where
  "latch_output = \<lparr>output_str = py ''abcdefghij\<newline>Action:'', output_token_length_po = 5, finish_reason_po = None\<rparr>"

definition call_output :: ProcessedOutput where
  "call_output = \<lparr>output_str = py ''abcdefghij\<newline>Action: f\<newline>Action Input: {}'', output_token_length_po = 9, finish_reason_po = None\<rparr>"

definition example_run :: "ProcessedOutput list" where
  "example_run = [example_output, latch_output, call_output]"

definition example_tokenizer :: QWenTokenizer where
  "example_tokenizer = \<lparr>encode = map int, encode_plain = map int, im_start_id = - 1, im_end_id = - 2\<rparr>"

definition user_message :: "string \<Rightarrow> ChatMessage" where
  "user_message s = \<lparr>role = user, content = Some (py s), function_call = None\<rparr>"

definition assistant_message :: "string \<Rightarrow> ChatMessage" where
  "assistant_message s = \<lparr>role = assistant, content = Some (py s), function_call = None\<rparr>"

definition system_message :: "string \<Rightarrow> ChatMessage" where
  "system_message s = \<lparr>role = system, content = Some (py s), function_call = None\<rparr>"

definition call_message :: "string \<Rightarrow> string \<Rightarrow> string \<Rightarrow> ChatMessage" where
  "call_message thought f args =
     \<lparr>role = assistant, content = Some (py thought),
      function_call = Some \<lparr>name = py f, arguments = py args\<rparr>\<rparr>"

definition result_message :: "string \<Rightarrow> ChatMessage" where
  "result_message s = \<lparr>role = function_role, content = Some (py s), function_call = None\<rparr>"

definition call_outputs :: "int list list" where
  "call_outputs =
     [ids_of ''abcdefghij'', ids_of ''abcdefghij\<newline>Action:'',
      ids_of ''abcdefghij\<newline>Action: f\<newline>Action Input: {}'']"

definition call_processed :: "ProcessedOutput list" where
  "call_processed =
     [\<lparr>output_str = py ''abcdefghij'', output_token_length_po = 10, finish_reason_po = None\<rparr>,
      \<lparr>output_str = py ''abcdefghij\<newline>Action:'', output_token_length_po = 18,
         finish_reason_po = None\<rparr>,
      \<lparr>output_str = py ''abcdefghij\<newline>Action: f\<newline>Action Input: {}'',
         output_token_length_po = 37, finish_reason_po = None\<rparr>]"

definition leaking_outputs :: "int list list" where
  "leaking_outputs =
     [ids_of ''a\<newline>Action: f 123456'', ids_of ''a\<newline>Action: f 123456\<newline>Action:'']"

definition two_marker_outputs :: "int list list" where
  "two_marker_outputs =
     [ids_of ''a\<newline>Action:'', ids_of ''a\<newline>Action: x\<newline>Action: f\<newline>Action Input: {}'']"

definition leaking_processed :: "ProcessedOutput list" where
  "leaking_processed =
     [\<lparr>output_str = py ''a\<newline>Action: f 123456'', output_token_length_po = 18,
         finish_reason_po = None\<rparr>,
      \<lparr>output_str = py ''a\<newline>Action: f 123456\<newline>Action:'', output_token_length_po = 26,
         finish_reason_po = None\<rparr>]"

definition two_marker_processed :: "ProcessedOutput list" where
  "two_marker_processed =
     [\<lparr>output_str = py ''a\<newline>Action:'', output_token_length_po = 9, finish_reason_po = None\<rparr>,
      \<lparr>output_str = py ''a\<newline>Action: x\<newline>Action: f\<newline>Action Input: {}'',
         output_token_length_po = 38, finish_reason_po = None\<rparr>]"

section \<open>Properties of the streaming assembler\<close>

lemma length_ACTION: "length ACTION = 8" by (simp add: ACTION_def py_def)

lemma length_Action_colon: "length (py ''Action:'') = 7" by (simp add: py_def)

lemma stream_step_latch:
  "generating_function_call s \<Longrightarrow> generating_function_call (fst (stream_step n s po))"
  by (simp add: stream_step_def Let_def)

lemma stream_step_buffering:
  "generating_function_call (fst (stream_step n s po)) \<Longrightarrow>
   snd (stream_step n s po) = (if output_token_length s = 0 then [role_delta (index_v s)] else [])"
  by (simp add: stream_step_def Let_def split: if_splits)

lemma stream_loop_snoc:
  "fst (stream_loop n s (pos @ [po])) = fst (stream_step n (fst (stream_loop n s pos)) po)"
  by (induction pos arbitrary: s) (simp_all add: split_beta Let_def)

lemma stream_loop_take_Suc:
  "k < length pos \<Longrightarrow>
   fst (stream_loop n s (take (Suc k) pos)) =
   fst (stream_step n (fst (stream_loop n s (take k pos))) (pos ! k))"
  by (simp add: take_Suc_conv_app_nth stream_loop_snoc)

lemma stream_loop_latch:
  "generating_function_call s \<Longrightarrow> generating_function_call (fst (stream_loop n s pos))"
  by (induction pos arbitrary: s) (simp_all add: split_beta Let_def stream_step_latch)

lemma py_slice_nonneg:
  "0 \<le> a \<Longrightarrow> 0 \<le> b \<Longrightarrow> py_slice s (Some a) (Some b) = take (min (length s) (nat b) - nat a) (drop (nat a) s)"
  by (auto simp add: py_slice_def slice_bound_def Let_def min_def)

lemma py_slice_to:
  "0 \<le> b \<Longrightarrow> py_slice s None (Some b) = take (nat b) s"
  by (auto simp add: py_slice_def slice_bound_def Let_def min_def)

lemma py_slice_from:
  "0 \<le> a \<Longrightarrow> py_slice s (Some a) None = drop (nat a) s"
  by (auto simp add: py_slice_def slice_bound_def Let_def min_def)

lemma stream_step_invariant:
  assumes "responded_length s \<le> length (strip (output_str po))"
  shows "responded_length (fst (stream_step n s po)) \<le> length (output_string (fst (stream_step n s po)))"
  using assms
  by (simp add: stream_step_def Let_def py_slice_to length_ACTION length_Action_colon)

lemma stream_step_output_string:
  "output_string (fst (stream_step n s po)) = strip (output_str po)"
  by (simp add: stream_step_def Let_def)

lemma stream_step_rl_bound:
  "responded_length (fst (stream_step n s po)) \<le> max (responded_length s) (length (strip (output_str po)))"
  by (auto simp add: stream_step_def Let_def py_slice_to length_ACTION length_Action_colon)

lemmas eval_defs = py_def strip_def lstrip_def rstrip_def isspace_def endswith_def suffix_def
  initial_vars_def ids_of_def example_renderer_def example_output_def strip_chars_def lstrip_chars_def
  rstrip_chars_def py_slice_def slice_bound_def

lemma ACTION_eq: "ACTION = [10, 65, 99, 116, 105, 111, 110, 58]" by (simp add: ACTION_def py_def)

lemma step_example:
  "stream_step 5 initial_vars example_output =
     (initial_vars\<lparr>output_string := py ''abcdefghij'', output_length := 10,
        responded_string := py ''abc'', responded_length := 3, output_token_length := 3\<rparr>,
      [role_delta 0, content_delta 0 (py ''abc'') None (usage_info 5 3)])"
  by (simp add: stream_step_def eval_defs ACTION_eq)

lemma finish_initial:
  "stream_finish 5 initial_vars = [content_delta 1 [] (Some FR_stop) (usage_info 5 0)]"
  by (simp add: stream_finish_def initial_vars_def)

lemma process_example:
  "process_output_ids_tensor example_renderer 0 (ids_of ''abcdefghij'') False =
     \<lparr>output_str = py ''abcdefghij'', output_token_length_po = 10, finish_reason_po = None\<rparr>"
  by (simp add: process_output_ids_tensor_def eval_defs)

text \<open>
  Claim C2, amended. In an update that streams (the latch is off and the trimmed output
  does not end with the marker), when the decoded output carries no surrounding
  whitespace and is longer than \<open>responded_length + len("\nAction:")\<close>, the content
  delta is \<open>output_string[responded_length : len(output_string) - len("Action:")]\<close>:
  exactly the last \<open>len("Action:") = 7\<close> characters are withheld, and
  \<open>responded_length\<close> advances to that boundary.
\<close>

theorem streaming_delta_withholds_seven:
  assumes "\<not> generating_function_call s"
    and "\<not> endswith (strip (output_str po)) ACTION"
    and "strip (output_str po) = output_str po"
    and "length (output_str po) > responded_length s + length ACTION"
  shows "snd (stream_step n s po) =
           (if output_token_length s = 0 then [role_delta (index_v s)] else []) @
           [content_delta (index_v s)
              (py_slice (output_str po) (Some (int (responded_length s)))
                 (Some (int (length (output_str po)) - int (length (py ''Action:'')))))
              None (usage_info n (output_token_length_po po))] \<and>
         py_slice (output_str po) (Some (int (responded_length s)))
                 (Some (int (length (output_str po)) - int (length (py ''Action:'')))) =
           take (length (output_str po) - 7 - responded_length s) (drop (responded_length s) (output_str po)) \<and>
         responded_length (fst (stream_step n s po)) = length (output_str po) - 7 \<and>
         length (py ''Action:'') = 7"
  using assms
  by (simp add: stream_step_def Let_def py_slice_to py_slice_nonneg length_ACTION length_Action_colon nat_diff_distrib')

theorem streaming_delta_withholds_seven_witness:
  "\<not> generating_function_call initial_vars \<and>
   \<not> endswith (strip (output_str example_output)) ACTION \<and>
   strip (output_str example_output) = output_str example_output \<and>
   length (output_str example_output) > responded_length initial_vars + length ACTION \<and>
   snd (stream_step 5 initial_vars example_output) =
     [role_delta 0, content_delta 0 (py ''abc'') None (usage_info 5 3)] \<and>
   responded_length (fst (stream_step 5 initial_vars example_output)) = 3"
proof -
  have h1: "\<not> generating_function_call initial_vars" by (simp add: initial_vars_def)
  have s: "strip (output_str example_output) = output_str example_output"
    by (simp add: eval_defs)
  have h2: "\<not> endswith (strip (output_str example_output)) ACTION"
    by (simp add: eval_defs ACTION_eq)
  have h4: "length (output_str example_output) > responded_length initial_vars + length ACTION"
    by (simp add: eval_defs ACTION_eq)
  note t = streaming_delta_withholds_seven [OF h1 h2 s h4, of 5]
  have v: "py_slice (output_str example_output) (Some (int (responded_length initial_vars)))
             (Some (int (length (output_str example_output)) - int (length (py ''Action:'')))) = py ''abc''"
    by (simp add: eval_defs)
  have i: "index_v initial_vars = 0" "output_token_length initial_vars = 0"
    "output_token_length_po example_output = 3" "length (output_str example_output) = 10"
    by (simp_all add: eval_defs)
  from t have "snd (stream_step 5 initial_vars example_output) =
     [role_delta 0, content_delta 0 (py ''abc'') None (usage_info 5 3)]"
    by (simp add: v i(1-3))
  moreover from t have "responded_length (fst (stream_step 5 initial_vars example_output)) = 3"
    by (simp add: i)
  ultimately show ?thesis using h1 h2 s h4 by blast
qed

text \<open>
  Claim C2 as stated fails: on the ten characters \<open>abcdefghij\<close> the delta is
  \<open>abc\<close>, whereas withholding \<open>len("\nAction:") = 8\<close> characters would give \<open>ab\<close>.
\<close>

theorem streaming_delta_not_eight_withheld:
  "\<not> generating_function_call initial_vars \<and>
   \<not> endswith (output_str example_output) ACTION \<and>
   length (output_str example_output) > responded_length initial_vars + length ACTION \<and>
   snd (stream_step 5 initial_vars example_output) =
     [role_delta 0, content_delta 0 (py ''abc'') None (usage_info 5 3)] \<and>
   py_slice (output_str example_output) (Some (int (responded_length initial_vars)))
     (Some (int (length (output_str example_output)) - int (length ACTION))) = py ''ab'' \<and>
   py ''abc'' \<noteq> py ''ab''"
  by (simp add: step_example) (simp add: eval_defs ACTION_eq)

lemma stream_loop_append:
  "fst (stream_loop n s (xs @ ys)) = fst (stream_loop n (fst (stream_loop n s xs)) ys)"
  by (induction xs arbitrary: s) (simp_all add: split_beta Let_def)

lemma stream_loop_output_string:
  "pos \<noteq> [] \<Longrightarrow>
   output_string (fst (stream_loop n s pos)) = strip (output_str (last pos))"
proof (induction pos rule: rev_induct)
  case Nil
  then show ?case by simp
next
  case (snoc po pos)
  show ?case by (simp add: stream_loop_snoc stream_step_output_string)
qed

lemma stream_loop_invariant:
  assumes "sorted_wrt (\<le>) (map (\<lambda>po. length (strip (output_str po))) pos)"
  shows "responded_length (fst (stream_loop n initial_vars pos))
           \<le> length (output_string (fst (stream_loop n initial_vars pos)))"
  using assms
proof (induction pos rule: rev_induct)
  case Nil
  then show ?case by (simp add: initial_vars_def)
next
  case (snoc po pos)
  let ?s = "fst (stream_loop n initial_vars pos)"
  from snoc.prems have srt: "sorted_wrt (\<le>) (map (\<lambda>po. length (strip (output_str po))) pos)"
    and le: "\<forall>q \<in> set pos. length (strip (output_str q)) \<le> length (strip (output_str po))"
    by (auto simp add: sorted_wrt_append)
  from snoc.IH [OF srt] have ih: "responded_length ?s \<le> length (output_string ?s)" .
  have "length (output_string ?s) \<le> length (strip (output_str po))"
  proof (cases "pos = []")
    case True
    then show ?thesis by (simp add: initial_vars_def)
  next
    case False
    then have "last pos \<in> set pos" by simp
    with le False show ?thesis by (simp add: stream_loop_output_string)
  qed
  with ih have "responded_length ?s \<le> length (strip (output_str po))" by simp
  then show ?case by (simp add: stream_loop_snoc stream_step_invariant)
qed

lemma run_state1:
  "fst (stream_loop 5 initial_vars (take 1 example_run)) =
     initial_vars\<lparr>output_string := py ''abcdefghij'', output_length := 10,
        responded_string := py ''abc'', responded_length := 3, output_token_length := 3\<rparr>"
  by (simp add: example_run_def step_example)

lemma run_state2:
  "fst (stream_loop 5 initial_vars (take 2 example_run)) =
     initial_vars\<lparr>output_string := py ''abcdefghij\<newline>Action:'', output_length := 18,
        responded_string := py ''abc'', responded_length := 3, output_token_length := 5,
        generating_function_call := True\<rparr>"
  by (simp add: example_run_def step_example numeral_2_eq_2)
     (simp add: stream_step_def latch_output_def eval_defs ACTION_eq)

lemma run_state3:
  "fst (stream_loop 5 initial_vars (take 3 example_run)) =
     initial_vars\<lparr>output_string := py ''abcdefghij\<newline>Action: f\<newline>Action Input: {}'', output_length := 37,
        responded_string := py ''abc'', responded_length := 3, output_token_length := 9,
        generating_function_call := True\<rparr>"
proof -
  have "take 3 example_run = take 2 example_run @ [call_output]"
    by (simp add: example_run_def)
  then show ?thesis
    by (simp only: stream_loop_snoc run_state2)
       (simp add: stream_step_def call_output_def eval_defs ACTION_eq)
qed

lemma run_sorted:
  "sorted_wrt (\<le>) (map (\<lambda>po. length (strip (output_str po))) example_run)"
  by (simp add: example_run_def latch_output_def call_output_def eval_defs)

lemma process_shrink1:
  "process_output_ids_tensor example_renderer 0 (ids_of ''The Observation'') False =
     \<lparr>output_str = py ''The Observation'', output_token_length_po = 15, finish_reason_po = None\<rparr>"
  by (simp add: process_output_ids_tensor_def eval_defs)

lemma process_shrink2:
  "process_output_ids_tensor example_renderer 0 (ids_of ''The Observation:'') False =
     \<lparr>output_str = py ''The '', output_token_length_po = 16, finish_reason_po = None\<rparr>"
  by (simp add: process_output_ids_tensor_def eval_defs)

lemma process_latch:
  "process_output_ids_tensor example_renderer 0 (ids_of ''Hi\<newline>Action:'') False =
     \<lparr>output_str = py ''Hi\<newline>Action:'', output_token_length_po = 10, finish_reason_po = None\<rparr>"
  by (simp add: process_output_ids_tensor_def eval_defs)

lemma parse_bare_action:
  "parse_function_response (py ''Hi\<newline>Action:'') = None"
  by (simp add: parse_function_response_def rfind_def ACTION_eq ACTION_INPUT_def OBSERVATION_def py_def)

section \<open>Properties of the conversation normalizer\<close>

text \<open>
  Claim C10. On the empty message list the check that no message is from the user holds
  vacuously, and \<open>parse_messages\<close> raises the \<open>ValueError\<close> ``At least one message must be
  from user.'' before \<open>messages[0]\<close> is read; so does \<open>render_chat\<close>.
\<close>

theorem empty_messages_raise_no_user_message:
  "list_all (\<lambda>m. role m \<noteq> user) [] \<and>
   parse_messages [] fs = Inl (ValueError NoUserMessage) \<and>
   render_chat tokenizer \<lparr>messages = [], functions_list = fs\<rparr> = Inl (ValueError NoUserMessage)"
  by (simp add: parse_messages_def render_chat_def)

theorem empty_messages_raise_no_user_message_witness:
  "parse_messages [] None = Inl (ValueError NoUserMessage) \<and>
   render_chat example_tokenizer \<lparr>messages = [], functions_list = None\<rparr>
     = Inl (ValueError NoUserMessage)"
  using empty_messages_raise_no_user_message [of None example_tokenizer] by blast

text \<open>
  Claim C6, amended. For a message list that consists of exactly one assistant message,
  with no functions supplied, \<open>parse_messages\<close> raises the \<open>ValueError\<close> ``At least one
  message must be from user.'' at its first check, and \<open>render_chat\<close> fails with it:
  neither the continuation rendering nor the default query rendering runs.
\<close>

theorem lone_assistant_message_is_rejected:
  "parse_messages [\<lparr>role = assistant, content = c, function_call = fc\<rparr>] None
     = Inl (ValueError NoUserMessage) \<and>
   render_chat tokenizer
     \<lparr>messages = [\<lparr>role = assistant, content = c, function_call = fc\<rparr>], functions_list = None\<rparr>
     = Inl (ValueError NoUserMessage)"
  by (simp add: parse_messages_def render_chat_def)

theorem lone_assistant_message_is_rejected_witness:
  "render_chat example_tokenizer
     \<lparr>messages = [\<lparr>role = assistant, content = Some (py ''partial''), function_call = None\<rparr>],
      functions_list = None\<rparr>
     = Inl (ValueError NoUserMessage)"
  using lone_assistant_message_is_rejected [of "Some (py ''partial'')" None example_tokenizer]
  by blast

text \<open>
  Claim C6 as stated fails: the request with the single assistant message
  \<open>partial answer\<close> is not rendered as a continuation, it raises.
\<close>

theorem partial_answer_is_not_continued:
  "render_chat example_tokenizer
     \<lparr>messages = [assistant_message ''partial answer''], functions_list = None\<rparr>
     = Inl (ValueError NoUserMessage)"
  by (simp add: parse_messages_def render_chat_def assistant_message_def)

text \<open>
  Claim C7 at the input of two user messages: the second becomes the query, one user
  message remains, and the pairing loop reads \<open>messages[1]\<close> out of range. The failure is
  an \<open>IndexError\<close>, not the \<open>ValueError\<close> of the pairing mismatch.
\<close>

theorem unpaired_user_message_raises_index_error:
  "parse_messages [user_message ''a'', user_message ''b''] None = Inl IndexError"
  by (simp add: parse_messages_def user_message_def extract_system_def or_else_def
      py_def lstrip_chars_def rstrip_def isspace_def fold_functions_def)


lemma build_history_result:
  "build_history sys ms acc = Inr (sys', h) \<Longrightarrow>
   \<exists>h'. h = acc @ h' \<and> length ms = 2 * length h' \<and>
        (ms = [] \<longrightarrow> sys' = sys) \<and>
        (ms \<noteq> [] \<longrightarrow> sys' = []) \<and>
        (ms \<noteq> [] \<longrightarrow> sys \<noteq> [] \<longrightarrow>
           fst (last h') = sys @ QUESTION @ rstrip (lstrip_chars [10] (snd (ms ! (length ms - 2))))) \<and>
        (\<forall>i. Suc i < length h' \<longrightarrow> fst (h' ! i) = rstrip (lstrip_chars [10] (snd (ms ! (2 * i)))))"
proof (induction sys ms acc arbitrary: sys' h rule: build_history.induct)
  case (1 sys history)
  then show ?case by simp
next
  case (2 sys m history)
  then show ?case by (simp split: if_splits)
next
  case (3 sys m1 m2 rest history)
  let ?u0 = "rstrip (lstrip_chars [10] (snd m1))"
  let ?pre = "sys \<noteq> [] \<and> rest = []"
  let ?usr = "if ?pre then sys @ QUESTION @ ?u0 else ?u0"
  let ?sys1 = "if ?pre then [] else sys"
  let ?bot = "fold remove_dummy_thought DUMMY_THOUGHT_values (rstrip (lstrip_chars [10] (snd m2)))"
  from "3.prems" have ok: "fst m1 = user \<and> fst m2 = assistant"
    by (simp split: if_splits)
  with "3.prems" have rec: "build_history ?sys1 rest (history @ [(?usr, ?bot)]) = Inr (sys', h)"
    by (simp add: Let_def)
  from "3.IH" [OF ok refl refl refl refl refl refl rec]
  obtain h' where h': "h = (history @ [(?usr, ?bot)]) @ h'" "length rest = 2 * length h'"
    "rest = [] \<longrightarrow> sys' = ?sys1" "rest \<noteq> [] \<longrightarrow> sys' = []"
    "rest \<noteq> [] \<longrightarrow> ?sys1 \<noteq> [] \<longrightarrow>
       fst (last h') = ?sys1 @ QUESTION @ rstrip (lstrip_chars [10] (snd (rest ! (length rest - 2))))"
    "\<forall>i. Suc i < length h' \<longrightarrow> fst (h' ! i) = rstrip (lstrip_chars [10] (snd (rest ! (2 * i))))"
    by blast
  show ?case
  proof (intro exI [of _ "(?usr, ?bot) # h'"] conjI impI allI)
    show "h = history @ (?usr, ?bot) # h'" using h'(1) by simp
    show "length (m1 # m2 # rest) = 2 * length ((?usr, ?bot) # h')" using h'(2) by simp
    show "sys' = sys" if "m1 # m2 # rest = []" using that by simp
    show "sys' = []" using h'(3,4) by (cases "rest = []") auto
    show "fst (last ((?usr, ?bot) # h')) =
        sys @ QUESTION @ rstrip (lstrip_chars [10] (snd ((m1 # m2 # rest) ! (length (m1 # m2 # rest) - 2))))"
      if "sys \<noteq> []"
    proof (cases "rest = []")
      case True
      with h'(2) have "h' = []" by simp
      with True that show ?thesis by simp
    next
      case False
      with h'(2) have ne: "h' \<noteq> []" by auto
      from False obtain a b rest' where r: "rest = a # b # rest'"
        using h'(2) ne by (cases rest; cases "tl rest"; cases h'; auto)
      from False that h'(5) have "fst (last h') =
        sys @ QUESTION @ rstrip (lstrip_chars [10] (snd (rest ! (length rest - 2))))"
        by simp
      with ne r show ?thesis by simp
    qed
    show "fst (((?usr, ?bot) # h') ! i) = rstrip (lstrip_chars [10] (snd ((m1 # m2 # rest) ! (2 * i))))"
      if "Suc i < length ((?usr, ?bot) # h')" for i
    proof (cases i)
      case 0
      with that have "h' \<noteq> []" by auto
      with h'(2) have "rest \<noteq> []" by auto
      with 0 show ?thesis by simp
    next
      case (Suc j)
      with that have "Suc j < length h'" by simp
      with h'(6) have "fst (h' ! j) = rstrip (lstrip_chars [10] (snd (rest ! (2 * j))))" by blast
      with Suc show ?thesis by simp
    qed
  qed
qed


lemma build_history_acc_nil:
  assumes "build_history sys ms [] = Inr (sys', h)"
  shows "length ms = 2 * length h \<and>
         (ms = [] \<longrightarrow> sys' = sys) \<and> (ms \<noteq> [] \<longrightarrow> sys' = []) \<and>
         (ms \<noteq> [] \<longrightarrow> sys \<noteq> [] \<longrightarrow>
            fst (last h) = sys @ QUESTION @ rstrip (lstrip_chars [10] (snd (ms ! (length ms - 2))))) \<and>
         (\<forall>i. Suc i < length h \<longrightarrow> fst (h ! i) = rstrip (lstrip_chars [10] (snd (ms ! (2 * i)))))"
  using build_history_result [OF assms] by simp

text \<open>
  Claim C3, amended. When a conversation is accepted and the system string left after
  the tool folding is not empty, that string is prefixed, as
  \<open>system + "\n\nQuestion: " + text\<close>, to the user text of the last history turn, or to
  the query when the history is empty, and to nothing else. So the instructions stand
  immediately before the final question when the history is empty or when the
  conversation ends with an assistant turn; when the history is not empty and a
  trailing user message is the query, they stand before the question of the last
  history turn and the query carries no prefix.
\<close>

theorem system_prefix_goes_to_last_history_turn:
  assumes "parse_messages msgs fs = Inr (q, history)"
    and "extract_system msgs = Inr (system0, msgs1)"
    and "normalize (truthy fs) msgs1 [] = Inr normalized"
    and "fold_functions system0 fs \<noteq> []"
  shows "(history = [] \<longrightarrow>
            fst (last normalized) = user \<and>
            q = Str (fold_functions system0 fs @ QUESTION @ snd (last normalized))) \<and>
         (history \<noteq> [] \<longrightarrow>
            fst (last history) =
              fold_functions system0 fs @ QUESTION @
              rstrip (lstrip_chars [10] (snd (normalized ! (2 * (length history - 1))))) \<and>
            q = (if fst (last normalized) = user then Str (snd (last normalized))
                 else TEXT_COMPLETION_CMD) \<and>
            (\<forall>i. Suc i < length history \<longrightarrow>
               fst (history ! i) = rstrip (lstrip_chars [10] (snd (normalized ! (2 * i))))))"
proof -
  let ?sys = "fold_functions system0 fs"
  let ?q0 = "if fst (last normalized) = user then Str (snd (last normalized)) else TEXT_COMPLETION_CMD"
  let ?rem = "if fst (last normalized) = user then butlast normalized else normalized"
  from assms(1) have nu: "\<not> list_all (\<lambda>m. role m \<noteq> user) msgs"
    by (auto simp add: parse_messages_def)
  from assms(1) nu assms(2,3) have ne: "normalized \<noteq> []"
    by (auto simp add: parse_messages_def split: if_splits)
  from assms(1) nu assms(2,3) ne obtain sys' h where
    bh: "build_history ?sys ?rem [] = Inr (sys', h)"
    and fin: "(if sys' \<noteq> [] then
                (case ?q0 of TEXT_COMPLETION_CMD \<Rightarrow> Inl AssertionError
                 | Str text \<Rightarrow> Inr (Str (sys' @ QUESTION @ text), h))
              else Inr (?q0, h)) = Inr (q, history)"
    by (auto simp add: parse_messages_def Let_def split: sum.splits)
  from fin have hh: "h = history"
    by (auto split: if_splits query.splits)
  note r = build_history_acc_nil [OF bh, unfolded hh]
  show ?thesis
  proof (intro conjI impI)
    assume e: "history = []"
    with r have rem: "?rem = []" and s': "sys' = ?sys" by auto
    from rem ne show "fst (last normalized) = user" by (auto split: if_splits)
    with fin s' assms(4) show "q = Str (?sys @ QUESTION @ snd (last normalized))"
      by (auto split: if_splits)
  next
    assume n: "history \<noteq> []"
    with r have remne: "?rem \<noteq> []" and s': "sys' = []" by auto
    from fin s' show "q = ?q0" by simp
    from r remne assms(4) have l: "fst (last history) =
        ?sys @ QUESTION @ rstrip (lstrip_chars [10] (snd (?rem ! (length ?rem - 2))))"
      by blast
    from r have len: "length ?rem = 2 * length history" by blast
    with n have idx: "length ?rem - 2 = 2 * (length history - 1)" "2 * (length history - 1) < length ?rem"
      by (cases history; simp)+
    have nth: "?rem ! k = normalized ! k" if "k < length ?rem" for k
      using that by (auto simp add: nth_butlast split: if_splits)
    from l idx nth show "fst (last history) =
        ?sys @ QUESTION @ rstrip (lstrip_chars [10] (snd (normalized ! (2 * (length history - 1)))))"
      by simp
    show "\<forall>i. Suc i < length history \<longrightarrow>
               fst (history ! i) = rstrip (lstrip_chars [10] (snd (normalized ! (2 * i))))"
    proof (intro allI impI)
      fix i assume i: "Suc i < length history"
      with r have "fst (history ! i) = rstrip (lstrip_chars [10] (snd (?rem ! (2 * i))))" by blast
      moreover from i len have "2 * i < length ?rem" by simp
      ultimately show "fst (history ! i) = rstrip (lstrip_chars [10] (snd (normalized ! (2 * i))))"
        using nth by simp
    qed
  qed
qed


lemmas message_defs = user_message_def assistant_message_def system_message_def

lemmas normalizer_defs = extract_system_def or_else_def truthy_def fold_functions_def
  assistant_content_def append_content_def remove_dummy_thought_def DUMMY_THOUGHT_values_def
  DUMMY_THOUGHT_en_def DUMMY_THOUGHT_zh_def default_system_def QUESTION_def startswith_def
  has_zh_def py_def lstrip_chars_def rstrip_def isspace_def py_slice_def slice_bound_def

lemma extract_two_turns:
  "extract_system [system_message ''S'', user_message ''a'', assistant_message ''b'', user_message ''c'']
     = Inr (py ''S'', [user_message ''a'', assistant_message ''b'', user_message ''c''])"
  by (simp add: message_defs normalizer_defs)

lemma normalize_two_turns:
  "normalize (truthy (None :: GPTFunctionDefinition list option)) [user_message ''a'', assistant_message ''b'', user_message ''c''] []
     = Inr [(user, py ''a''), (assistant, py ''b''), (user, py ''c'')]"
  by (simp add: message_defs normalizer_defs)

lemma parse_two_turns:
  "parse_messages [system_message ''S'', user_message ''a'', assistant_message ''b'', user_message ''c''] None
     = Inr (Str (py ''c''), [(py ''S\<newline>\<newline>Question: a'', py ''b'')])"
  by (simp add: parse_messages_def extract_two_turns normalize_two_turns)
     (simp add: message_defs normalizer_defs sublist_code)

lemma extract_one_turn:
  "extract_system [system_message ''S'', user_message ''c''] = Inr (py ''S'', [user_message ''c''])"
  by (simp add: message_defs normalizer_defs)

lemma normalize_one_turn:
  "normalize (truthy (None :: GPTFunctionDefinition list option)) [user_message ''c''] [] = Inr [(user, py ''c'')]"
  by (simp add: message_defs normalizer_defs)

lemma parse_one_turn:
  "parse_messages [system_message ''S'', user_message ''c''] None
     = Inr (Str (py ''S\<newline>\<newline>Question: c''), [])"
  by (simp add: parse_messages_def extract_one_turn normalize_one_turn)
     (simp add: message_defs normalizer_defs)

theorem system_prefix_goes_to_last_history_turn_witness:
  "parse_messages [system_message ''S'', user_message ''c''] None
     = Inr (Str (py ''S\<newline>\<newline>Question: c''), []) \<and>
   Str (py ''S\<newline>\<newline>Question: c'') = Str (py ''S'' @ QUESTION @ py ''c'') \<and>
   parse_messages [system_message ''S'', user_message ''a'', assistant_message ''b'', user_message ''c''] None
     = Inr (Str (py ''c''), [(py ''S\<newline>\<newline>Question: a'', py ''b'')]) \<and>
   py ''S\<newline>\<newline>Question: a'' = py ''S'' @ QUESTION @ py ''a''"
proof -
  have f: "fold_functions (py ''S'') None \<noteq> []" "fold_functions (py ''S'') None = py ''S''"
    by (simp_all add: fold_functions_def py_def)
  have s: "rstrip (lstrip_chars [10] (py ''a'')) = py ''a''"
    by (simp add: normalizer_defs)
  from system_prefix_goes_to_last_history_turn [OF parse_one_turn extract_one_turn normalize_one_turn f(1)]
  have a: "Str (py ''S\<newline>\<newline>Question: c'') = Str (py ''S'' @ QUESTION @ py ''c'')"
    by (simp add: f(2))
  from system_prefix_goes_to_last_history_turn [OF parse_two_turns extract_two_turns normalize_two_turns f(1)]
  have b: "py ''S\<newline>\<newline>Question: a'' = py ''S'' @ QUESTION @ py ''a''"
    by (simp add: f(2) s)
  from a b parse_one_turn parse_two_turns show ?thesis by blast
qed

text \<open>
  Claim C3 as stated fails: with one completed turn and a trailing user message, the
  system text is put before the question of the completed turn, and the final
  question \<open>c\<close> is returned without it.
\<close>

theorem system_prefix_not_before_final_query:
  "parse_messages [system_message ''S'', user_message ''a'', assistant_message ''b'', user_message ''c''] None
     = Inr (Str (py ''c''), [(py ''S\<newline>\<newline>Question: a'', py ''b'')]) \<and>
   Str (py ''c'') \<noteq> Str (py ''S'' @ QUESTION @ py ''c'')"
  by (simp add: parse_two_turns) (simp add: py_def)

section \<open>Properties of the template renderer\<close>


lemma window_loop_result:
  "\<exists>n \<le> length rs.
     window_loop tok sl maxw rs ctx raw =
       (concat (map (turn_tokens tok) (rev (take n rs))) @ ctx,
        concat (map (turn_text tok) (rev (take n rs))) @ raw) \<and>
     (0 < n \<longrightarrow> int (sl + length (concat (map (turn_tokens tok) (rev (take n rs))) @ ctx)) < maxw) \<and>
     (n < length rs \<longrightarrow>
        \<not> int (sl + length (turn_tokens tok (rs ! n)) +
               length (concat (map (turn_tokens tok) (rev (take n rs))) @ ctx)) < maxw)"
proof (induction rs arbitrary: ctx raw)
  case Nil
  show ?case by simp
next
  case (Cons turn older)
  show ?case
  proof (cases "int (sl + length (turn_tokens tok turn) + length ctx) < maxw")
    case False
    then show ?thesis by (intro exI [of _ 0]) simp
  next
    case True
    from Cons.IH [of "turn_tokens tok turn @ ctx" "turn_text tok turn @ raw"]
    obtain n where n: "n \<le> length older"
      "window_loop tok sl maxw older (turn_tokens tok turn @ ctx) (turn_text tok turn @ raw) =
         (concat (map (turn_tokens tok) (rev (take n older))) @ turn_tokens tok turn @ ctx,
          concat (map (turn_text tok) (rev (take n older))) @ turn_text tok turn @ raw)"
      "0 < n \<longrightarrow> int (sl + length (concat (map (turn_tokens tok) (rev (take n older))) @ turn_tokens tok turn @ ctx)) < maxw"
      "n < length older \<longrightarrow>
        \<not> int (sl + length (turn_tokens tok (older ! n)) +
               length (concat (map (turn_tokens tok) (rev (take n older))) @ turn_tokens tok turn @ ctx)) < maxw"
      by blast
    show ?thesis
    proof (intro exI [of _ "Suc n"] conjI impI)
      show "Suc n \<le> length (turn # older)" using n(1) by simp
      show "window_loop tok sl maxw (turn # older) ctx raw =
         (concat (map (turn_tokens tok) (rev (take (Suc n) (turn # older)))) @ ctx,
          concat (map (turn_text tok) (rev (take (Suc n) (turn # older)))) @ raw)"
        using True n(2) by (simp add: Let_def)
      show "int (sl + length (concat (map (turn_tokens tok) (rev (take (Suc n) (turn # older)))) @ ctx)) < maxw"
      proof (cases "0 < n")
        case True
        with n(3) show ?thesis by simp
      next
        case False
        with \<open>int (sl + length (turn_tokens tok turn) + length ctx) < maxw\<close> show ?thesis by simp
      qed
      show "\<not> int (sl + length (turn_tokens tok ((turn # older) ! Suc n)) +
               length (concat (map (turn_tokens tok) (rev (take (Suc n) (turn # older)))) @ ctx)) < maxw"
        if "Suc n < length (turn # older)"
        using that n(4) by simp
    qed
  qed
qed

text \<open>
  Claim C4, amended. \<open>make_context\<close> keeps the \<open>n\<close> most recent turns of the history, in
  their order, for some \<open>n\<close>: walking from the most recent turn to the oldest, a turn is
  kept while \<open>len(system_tokens) + len(its tokens) + len(tokens kept so far)\<close> is strictly
  below \<open>max_window_size\<close>, and the first turn that fails the test and all older ones are
  dropped. Whenever at least one turn is kept, the tokens of the kept turns plus the
  system tokens number less than \<open>max_window_size\<close>; when the whole history with the
  system tokens reaches the budget, some turn is dropped. The query turn is appended
  after the kept turns whatever the budget.
\<close>

theorem window_keeps_newest_turns_under_budget:
  "\<exists>n \<le> length history.
     snd (make_context tok q history sys maxw) =
       system_tokens_of tok sys @
       concat (map (turn_tokens tok) (drop (length history - n) history)) @
       query_tokens_of tok q \<and>
     fst (make_context tok q history sys maxw) =
       im_start @ py ''system\<newline>'' @ sys @ im_end @
       concat (map (turn_text tok) (drop (length history - n) history)) @
       py ''\<newline>'' @ im_start @ py ''user\<newline>'' @ q @ im_end @
       py ''\<newline>'' @ im_start @ py ''assistant\<newline>'' \<and>
     (0 < n \<longrightarrow>
        int (length (system_tokens_of tok sys) +
             length (concat (map (turn_tokens tok) (drop (length history - n) history)))) < maxw) \<and>
     (n < length history \<longrightarrow>
        \<not> int (length (system_tokens_of tok sys) +
               length (turn_tokens tok (history ! (length history - 1 - n))) +
               length (concat (map (turn_tokens tok) (drop (length history - n) history)))) < maxw) \<and>
     (history \<noteq> [] \<longrightarrow>
        maxw \<le> int (length (system_tokens_of tok sys) + length (concat (map (turn_tokens tok) history))) \<longrightarrow>
        n < length history)"
proof -
  let ?sl = "length (system_tokens_of tok sys)"
  from window_loop_result [of "rev history" tok ?sl maxw "[]" "[]"]
  obtain n where n: "n \<le> length history"
    "window_loop tok ?sl maxw (rev history) [] [] =
       (concat (map (turn_tokens tok) (rev (take n (rev history)))),
        concat (map (turn_text tok) (rev (take n (rev history)))))"
    "0 < n \<longrightarrow> int (?sl + length (concat (map (turn_tokens tok) (rev (take n (rev history)))))) < maxw"
    "n < length history \<longrightarrow>
        \<not> int (?sl + length (turn_tokens tok (rev history ! n)) +
               length (concat (map (turn_tokens tok) (rev (take n (rev history)))))) < maxw"
    by auto
  have k: "rev (take n (rev history)) = drop (length history - n) history"
    by (simp add: rev_take)
  have nth: "rev history ! n = history ! (length history - 1 - n)" if "n < length history"
    using that by (simp add: rev_nth)
  show ?thesis
  proof (intro exI [of _ n] conjI impI)
    show "n \<le> length history" by (rule n(1))
    show "snd (make_context tok q history sys maxw) =
       system_tokens_of tok sys @
       concat (map (turn_tokens tok) (drop (length history - n) history)) @
       query_tokens_of tok q"
      by (simp add: make_context_def Let_def n(2) k)
    show "fst (make_context tok q history sys maxw) =
       im_start @ py ''system\<newline>'' @ sys @ im_end @
       concat (map (turn_text tok) (drop (length history - n) history)) @
       py ''\<newline>'' @ im_start @ py ''user\<newline>'' @ q @ im_end @
       py ''\<newline>'' @ im_start @ py ''assistant\<newline>''"
      by (simp add: make_context_def Let_def n(2) k tokenize_str_def py_def)
    show "int (?sl + length (concat (map (turn_tokens tok) (drop (length history - n) history)))) < maxw"
      if "0 < n" using that n(3) k by simp
    show "\<not> int (?sl + length (turn_tokens tok (history ! (length history - 1 - n))) +
               length (concat (map (turn_tokens tok) (drop (length history - n) history)))) < maxw"
      if "n < length history" using that n(4) k nth by simp
    show "n < length history"
      if "history \<noteq> []"
        and "maxw \<le> int (?sl + length (concat (map (turn_tokens tok) history)))"
    proof (rule ccontr)
      assume "\<not> n < length history"
      with n(1) have e: "n = length history" by simp
      with that(1) have "0 < n" by simp
      with n(3) k e have "int (?sl + length (concat (map (turn_tokens tok) history))) < maxw"
        by simp
      with that(2) show False by simp
    qed
  qed
qed


lemma example_system_tokens_length:
  "length (system_tokens_of example_tokenizer sys) = 9 + length sys"
  by (simp add: system_tokens_of_def tokenize_str_def example_tokenizer_def py_def)

lemma example_turn_tokens_length:
  "length (turn_tokens example_tokenizer turn) = 21 + length (fst turn) + length (snd turn)"
  by (simp add: turn_tokens_def tokenize_str_def example_tokenizer_def py_def Let_def)

theorem window_keeps_newest_turns_under_budget_witness:
  "snd (make_context example_tokenizer (py ''q'') [(py ''a'', py ''b''), (py ''c'', py ''d'')] [] 40) =
     system_tokens_of example_tokenizer [] @ turn_tokens example_tokenizer (py ''c'', py ''d'') @
     query_tokens_of example_tokenizer (py ''q'') \<and>
   int (length (system_tokens_of example_tokenizer []) +
        length (turn_tokens example_tokenizer (py ''c'', py ''d''))) < 40 \<and>
   \<not> int (length (system_tokens_of example_tokenizer []) +
        length (turn_tokens example_tokenizer (py ''a'', py ''b'')) +
        length (turn_tokens example_tokenizer (py ''c'', py ''d''))) < 40"
proof -
  let ?h = "[(py ''a'', py ''b''), (py ''c'', py ''d'')]"
  let ?tok = example_tokenizer
  have l: "length (py ''a'') = 1" "length (py ''b'') = 1" "length (py ''c'') = 1" "length (py ''d'') = 1"
    by (simp_all add: py_def)
  from window_keeps_newest_turns_under_budget [of ?h ?tok "py ''q''" "[]" 40]
  obtain n where n: "n \<le> length ?h"
    "snd (make_context ?tok (py ''q'') ?h [] 40) =
       system_tokens_of ?tok [] @ concat (map (turn_tokens ?tok) (drop (length ?h - n) ?h)) @
       query_tokens_of ?tok (py ''q'')"
    "0 < n \<longrightarrow> int (length (system_tokens_of ?tok []) +
             length (concat (map (turn_tokens ?tok) (drop (length ?h - n) ?h)))) < 40"
    "n < length ?h \<longrightarrow>
        \<not> int (length (system_tokens_of ?tok []) +
               length (turn_tokens ?tok (?h ! (length ?h - 1 - n))) +
               length (concat (map (turn_tokens ?tok) (drop (length ?h - n) ?h)))) < 40"
    by blast
  from n(1) have "n = 0 \<or> n = 1 \<or> n = 2" by auto
  then have n1: "n = 1"
  proof (elim disjE)
    assume "n = 0"
    with n(4) show ?thesis
      by (simp add: example_system_tokens_length example_turn_tokens_length l)
  next
    assume "n = 1" then show ?thesis .
  next
    assume "n = 2"
    with n(3) show ?thesis
      by (simp add: example_system_tokens_length example_turn_tokens_length l)
  qed
  from n(2) n1 have a: "snd (make_context ?tok (py ''q'') ?h [] 40) =
     system_tokens_of ?tok [] @ turn_tokens ?tok (py ''c'', py ''d'') @ query_tokens_of ?tok (py ''q'')"
    by simp
  have b: "int (length (system_tokens_of ?tok []) + length (turn_tokens ?tok (py ''c'', py ''d''))) < 40"
    by (simp add: example_system_tokens_length example_turn_tokens_length l)
  have c: "\<not> int (length (system_tokens_of ?tok []) +
        length (turn_tokens ?tok (py ''a'', py ''b'')) +
        length (turn_tokens ?tok (py ''c'', py ''d''))) < 40"
    by (simp add: example_system_tokens_length example_turn_tokens_length l)
  from a b c show ?thesis by blast
qed

text \<open>
  Claim C4 as stated fails when no turn is kept: with a budget of 30 tokens and a system
  turn of 37 tokens, the one turn of the history is dropped, and the system tokens alone
  are not below the budget.
\<close>

theorem system_turn_alone_can_exceed_budget:
  "snd (make_context example_tokenizer (py ''q'') [(py ''a'', py ''b'')] default_system 30) =
     system_tokens_of example_tokenizer default_system @ query_tokens_of example_tokenizer (py ''q'') \<and>
   length (system_tokens_of example_tokenizer default_system) = 37 \<and>
   length (turn_tokens example_tokenizer (py ''a'', py ''b'')) = 23 \<and>
   \<not> int (length (system_tokens_of example_tokenizer default_system) + 0) < 30"
proof -
  have s: "length (system_tokens_of example_tokenizer default_system) = 37"
    by (simp add: example_system_tokens_length default_system_def py_def)
  have t: "length (turn_tokens example_tokenizer (py ''a'', py ''b'')) = 23"
    by (simp add: example_turn_tokens_length py_def)
  have m: "snd (make_context example_tokenizer (py ''q'') [(py ''a'', py ''b'')] default_system 30) =
     system_tokens_of example_tokenizer default_system @ query_tokens_of example_tokenizer (py ''q'')"
    by (simp add: make_context_def Let_def s t)
  from s t m show ?thesis by simp
qed

section \<open>Folding a function call and extracting it again\<close>

subsection \<open>Searching\<close>

lemma rfind_from_None_iff: "rfind_from sub s = None \<longleftrightarrow> \<not> sublist sub s"
  by (induction s) (auto simp add: sublist_Cons_right split: option.splits)

lemma rfind_from_last:
  assumes "sub \<noteq> []" and "\<not> sublist sub (tl (sub @ Y))"
  shows "rfind_from sub (X @ sub @ Y) = Some (length X)"
proof (induction X)
  case Nil
  from assms(1) obtain c sub' where s: "sub = c # sub'" by (cases sub) auto
  with assms(2) have "rfind_from sub (sub' @ Y) = None"
    by (simp add: rfind_from_None_iff)
  with s show ?case by simp
next
  case (Cons x X)
  then show ?case by simp
qed

lemma rfind_last:
  assumes "sub \<noteq> []" and "\<not> sublist sub (tl (sub @ Y))"
  shows "rfind (X @ sub @ Y) sub = int (length X)"
  by (simp add: rfind_def rfind_from_last [OF assms])

lemma marker_sublist_append_newline:
  assumes "marker m"
  shows "sublist m (X @ 10 # Y) \<longleftrightarrow> sublist m X \<or> sublist m (10 # Y)"
proof
  assume "sublist m (X @ 10 # Y)"
  then consider "sublist m X" | "sublist m (10 # Y)"
    | m1 m2 where "m = m1 @ m2" "suffix m1 X" "prefix m2 (10 # Y)" "m1 \<noteq> []" "m2 \<noteq> []"
    by (auto simp add: sublist_append) (metis append_Nil2 append_Nil prefix_imp_sublist suffix_imp_sublist)+
  then show "sublist m X \<or> sublist m (10 # Y)"
  proof cases
    case 3
    from 3(3,5) have "hd m2 = 10" by (cases m2) auto
    with 3(5) have "10 \<in> set m2" by (cases m2) auto
    moreover from 3(1,4) have "set m2 \<subseteq> set (tl m)" by (cases m1) auto
    ultimately show ?thesis using assms by (auto simp add: marker_def)
  qed auto
next
  assume "sublist m X \<or> sublist m (10 # Y)"
  then show "sublist m (X @ 10 # Y)"
    by (auto simp add: sublist_append)
qed

lemma marker_sublist_Cons_other:
  assumes "marker m" and "c \<noteq> 10"
  shows "sublist m (c # s) \<longleftrightarrow> sublist m s"
  using assms by (cases m) (auto simp add: sublist_Cons_right marker_def)

lemma sublist_rstrip: "sublist m (rstrip s) \<Longrightarrow> sublist m s"
proof -
  have "prefix (rstrip s) s"
    unfolding rstrip_def
    by (metis dropWhile_eq_drop rev_drop rev_rev_ident take_is_prefix length_rev)
  then show "sublist m (rstrip s) \<Longrightarrow> sublist m s"
    by (meson prefix_imp_sublist sublist_order.order.trans)
qed

subsection \<open>Trimming\<close>

lemma rstrip_append:
  "rstrip (X @ Y) = (if \<forall>c \<in> set Y. isspace c then rstrip X else X @ rstrip Y)"
  by (simp add: rstrip_def dropWhile_append)

lemma rstrip_Cons:
  "rstrip (c # Y) =
     (if \<forall>d \<in> set Y. isspace d then (if isspace c then [] else [c]) else c # rstrip Y)"
  using rstrip_append [of "[c]" Y] by (simp add: rstrip_def)

lemma rstrip_nonspace_last:
  "s \<noteq> [] \<Longrightarrow> \<not> isspace (last s) \<Longrightarrow> rstrip s = s"
  by (cases s rule: rev_cases) (simp_all add: rstrip_def)

lemma rstrip_idem: "rstrip (rstrip s) = rstrip s"
proof (cases "rstrip s = []")
  case True
  then show ?thesis by (simp add: rstrip_def)
next
  case False
  then have "dropWhile isspace (rev s) \<noteq> []" by (simp add: rstrip_def)
  then have "\<not> isspace (hd (dropWhile isspace (rev s)))" by (rule hd_dropWhile)
  then have "\<not> isspace (last (rstrip s))"
    using False by (simp add: rstrip_def last_rev)
  with False show ?thesis by (rule rstrip_nonspace_last)
qed

lemma strip_rstrip: "strip (rstrip s) = strip s"
  by (simp add: strip_def rstrip_idem)

lemma strip_space_Cons:
  assumes "isspace c"
  shows "strip (c # s) = strip s"
proof (cases "\<forall>d \<in> set s. isspace d")
  case True
  then have "rstrip s = []" by (simp add: rstrip_def)
  moreover from True assms have "rstrip (c # s) = []" by (simp add: rstrip_Cons)
  ultimately show ?thesis by (simp add: strip_def)
next
  case False
  then have "rstrip (c # s) = c # rstrip s" by (auto simp add: rstrip_Cons)
  with assms show ?thesis by (simp add: strip_def lstrip_def)
qed

lemma lstrip_chars_append:
  "lstrip_chars cs X \<noteq> [] \<Longrightarrow> lstrip_chars cs (X @ Y) = lstrip_chars cs X @ Y"
  by (auto simp add: lstrip_chars_def dropWhile_append)

lemma lstrip_chars_hd:
  "lstrip_chars cs X \<noteq> [] \<Longrightarrow> hd (lstrip_chars cs X) \<notin> set cs"
  unfolding lstrip_chars_def by (rule hd_dropWhile)

lemma lstrip_chars_id:
  "s \<noteq> [] \<Longrightarrow> hd s \<notin> set cs \<Longrightarrow> lstrip_chars cs s = s"
  by (cases s) (simp_all add: lstrip_chars_def)

subsection \<open>Slicing\<close>

lemma py_slice_middle:
  "py_slice (X @ Y @ Z) (Some (int (length X))) (Some (int (length X + length Y))) = Y"
  by (simp add: py_slice_nonneg)

lemma py_slice_front:
  "py_slice (X @ Z) None (Some (int (length X))) = X"
  by (simp add: py_slice_to)

subsection \<open>The dummy thoughts\<close>

lemma prefix_past_boundary:
  assumes "prefix t (P @ c # d # Q)" and "length P < length t"
    and "c \<notin> set (take k t)" and "c \<notin> set (drop (Suc k) t)"
    and "Suc k < length t" and "t ! Suc k \<noteq> d"
  shows False
proof -
  from assms(1) obtain zs where zs: "P @ c # d # Q = t @ zs"
    by (auto simp add: prefix_def)
  have nth: "t ! i = (P @ c # d # Q) ! i" if "i < length t" for i
    using that by (simp add: zs nth_append)
  from nth [OF assms(2)] have tc: "t ! length P = c" by simp
  have "length P = k"
  proof (rule ccontr)
    assume "length P \<noteq> k"
    then consider "length P < k" | "k < length P" by linarith
    then show False
    proof cases
      case 1
      with assms(2) have "take k t ! length P = t ! length P" "length P < length (take k t)"
        by simp_all
      then have "t ! length P \<in> set (take k t)" by (metis nth_mem)
      with tc assms(3) show False by simp
    next
      case 2
      then have "Suc k + (length P - Suc k) = length P" by simp
      with 2 assms(2) have "drop (Suc k) t ! (length P - Suc k) = t ! length P"
        "length P - Suc k < length (drop (Suc k) t)"
        by (simp_all only: nth_drop) simp_all
      then have "t ! length P \<in> set (drop (Suc k) t)" by (metis nth_mem)
      with tc assms(4) show False by simp
    qed
  qed
  with nth [OF assms(5)] have "t ! Suc k = d" by (simp add: nth_append)
  with assms(6) show False by simp
qed

lemma dummy_thought_en_stripped:
  "lstrip_chars [10] DUMMY_THOUGHT_en =
     py ''Thought: I now know the final answer.\<newline>Final answer: ''"
  by (simp add: DUMMY_THOUGHT_en_def lstrip_chars_def py_def)

lemma dummy_thought_zh_stripped:
  "lstrip_chars [10] DUMMY_THOUGHT_zh =
     py ''Thought: '' @ [25105, 20250, 20316, 31572, 20102, 12290] @ py ''\<newline>Final answer: ''"
  by (simp add: DUMMY_THOUGHT_zh_def lstrip_chars_def py_def)

lemma dummy_thought_en_before_action:
  assumes "prefix (lstrip_chars [10] DUMMY_THOUGHT_en) (P @ py ''\<newline>Action: '' @ R)"
  shows "length (lstrip_chars [10] DUMMY_THOUGHT_en) \<le> length P"
proof (rule ccontr)
  let ?t = "lstrip_chars [10] DUMMY_THOUGHT_en"
  assume "\<not> length ?t \<le> length P"
  then have l: "length P < length ?t" by simp
  from assms have p: "prefix ?t (P @ 10 # 65 # (py ''ction: '' @ R))"
    by (simp add: py_def)
  show False
    by (rule prefix_past_boundary [OF p l, of 37])
       (simp_all add: dummy_thought_en_stripped py_def)
qed

lemma dummy_thought_zh_before_action:
  assumes "prefix (lstrip_chars [10] DUMMY_THOUGHT_zh) (P @ py ''\<newline>Action: '' @ R)"
  shows "length (lstrip_chars [10] DUMMY_THOUGHT_zh) \<le> length P"
proof (rule ccontr)
  let ?t = "lstrip_chars [10] DUMMY_THOUGHT_zh"
  assume "\<not> length ?t \<le> length P"
  then have l: "length P < length ?t" by simp
  from assms have p: "prefix ?t (P @ 10 # 65 # (py ''ction: '' @ R))"
    by (simp add: py_def)
  show False
    by (rule prefix_past_boundary [OF p l, of 15])
       (simp_all add: dummy_thought_zh_stripped py_def)
qed

lemma remove_dummy_thought_keeps_action:
  assumes "t0 = DUMMY_THOUGHT_en \<or> t0 = DUMMY_THOUGHT_zh"
  shows "\<exists>P'. remove_dummy_thought t0 (P @ py ''\<newline>Action: '' @ R) = P' @ py ''\<newline>Action: '' @ R"
proof (cases "startswith (P @ py ''\<newline>Action: '' @ R) (lstrip_chars [10] t0)")
  case False
  then show ?thesis by (auto simp add: remove_dummy_thought_def Let_def)
next
  case True
  with assms have "length (lstrip_chars [10] t0) \<le> length P"
    by (auto simp add: startswith_def dummy_thought_en_before_action dummy_thought_zh_before_action)
  then have "py_slice (P @ py ''\<newline>Action: '' @ R) (Some (int (length (lstrip_chars [10] t0)))) None
      = drop (length (lstrip_chars [10] t0)) P @ py ''\<newline>Action: '' @ R"
    by (simp add: py_slice_from)
  then show ?thesis by (auto simp add: remove_dummy_thought_def Let_def)
qed

lemma remove_dummy_thoughts_keep_action:
  "\<exists>P'. fold remove_dummy_thought DUMMY_THOUGHT_values (P @ py ''\<newline>Action: '' @ R)
      = P' @ py ''\<newline>Action: '' @ R"
proof -
  obtain P1 where 1: "remove_dummy_thought DUMMY_THOUGHT_en (P @ py ''\<newline>Action: '' @ R)
      = P1 @ py ''\<newline>Action: '' @ R"
    using remove_dummy_thought_keeps_action [of DUMMY_THOUGHT_en P R] by blast
  obtain P2 where 2: "remove_dummy_thought DUMMY_THOUGHT_zh (P1 @ py ''\<newline>Action: '' @ R)
      = P2 @ py ''\<newline>Action: '' @ R"
    using remove_dummy_thought_keeps_action [of DUMMY_THOUGHT_zh P1 R] by blast
  from 1 2 show ?thesis by (simp add: DUMMY_THOUGHT_values_def)
qed

subsection \<open>Extraction from a folded call\<close>

lemma ACTION_INPUT_eq:
  "ACTION_INPUT = [10, 65, 99, 116, 105, 111, 110, 32, 73, 110, 112, 117, 116, 58]"
  by (simp add: ACTION_INPUT_def py_def)

lemma OBSERVATION_eq:
  "OBSERVATION = [10, 79, 98, 115, 101, 114, 118, 97, 116, 105, 111, 110, 58]"
  by (simp add: OBSERVATION_def py_def)

lemma sublist_newline_Cons:
  "sublist m (10 # s) \<longleftrightarrow> prefix m (10 # s) \<or> sublist m s"
  by (rule sublist_Cons_right)

lemmas marker_search = marker_sublist_append_newline marker_sublist_Cons_other
  sublist_newline_Cons marker_def ACTION_eq ACTION_INPUT_eq OBSERVATION_eq py_def

lemma no_action_after:
  assumes "\<not> sublist ACTION n" "\<not> sublist ACTION a" "\<not> sublist ACTION ob"
  shows "\<not> sublist ACTION
           (tl (ACTION @ 32 # n @ ACTION_INPUT @ a @ OBSERVATION @ 32 # ob @ py ''\<newline>Thought:''))"
  using assms by (simp add: marker_search)

lemma no_action_input_after:
  assumes "\<not> sublist ACTION_INPUT a" "\<not> sublist ACTION_INPUT ob"
  shows "\<not> sublist ACTION_INPUT
           (tl (ACTION_INPUT @ a @ OBSERVATION @ 32 # ob @ py ''\<newline>Thought:''))"
  using assms by (simp add: marker_search)

lemma no_observation_after:
  assumes "\<not> sublist OBSERVATION ob"
  shows "\<not> sublist OBSERVATION (tl (OBSERVATION @ 32 # ob @ py ''\<newline>Thought:''))"
  using assms by (simp add: marker_search)

lemma length_markers:
  "length ACTION = 8" "length ACTION_INPUT = 14" "length OBSERVATION = 13"
  by (simp_all add: ACTION_eq ACTION_INPUT_eq OBSERVATION_eq)

lemma parse_folded_call:
  assumes "\<not> sublist ACTION n" and "\<not> sublist ACTION a" and "\<not> sublist ACTION ob"
    and "\<not> sublist ACTION_INPUT a" and "\<not> sublist ACTION_INPUT ob"
    and "\<not> sublist OBSERVATION ob"
    and "strip n \<noteq> []"
  shows "parse_function_response
           (P @ ACTION @ 32 # n @ ACTION_INPUT @ a @ OBSERVATION @ 32 # ob @ py ''\<newline>Thought:'') =
         Some \<lparr>delta_role = None, delta_content = Some P,
               delta_function_call = Some \<lparr>name = strip n, arguments = strip a\<rparr>\<rparr>"
proof -
  define tl3 where "tl3 = 32 # ob @ py ''\<newline>Thought:''"
  define tl2 where "tl2 = a @ OBSERVATION @ tl3"
  define tl1 where "tl1 = 32 # n @ ACTION_INPUT @ tl2"
  define bot where "bot = P @ ACTION @ tl1"
  have b1: "bot = P @ ACTION @ tl1" by (simp add: bot_def)
  have b2: "bot = (P @ ACTION @ 32 # n) @ ACTION_INPUT @ tl2" by (simp add: bot_def tl1_def)
  have b3: "bot = (P @ ACTION @ 32 # n @ ACTION_INPUT @ a) @ OBSERVATION @ tl3"
    by (simp add: bot_def tl1_def tl2_def)
  have ne: "ACTION \<noteq> []" "ACTION_INPUT \<noteq> []" "OBSERVATION \<noteq> []"
    by (simp_all add: ACTION_eq ACTION_INPUT_eq OBSERVATION_eq)
  have i: "rfind bot ACTION = int (length P)"
    unfolding b1
    by (rule rfind_last [OF ne(1)])
       (simp only: tl1_def tl2_def tl3_def no_action_after [OF assms(1,2,3)] not_False_eq_True)
  have j: "rfind bot ACTION_INPUT = (int (length P) + 9 + int (length n))"
  proof -
    have "rfind bot ACTION_INPUT = int (length (P @ ACTION @ 32 # n))"
      unfolding b2
      by (rule rfind_last [OF ne(2)])
         (simp only: tl2_def tl3_def no_action_input_after [OF assms(4,5)] not_False_eq_True)
    then show ?thesis by (simp add: length_markers)
  qed
  have k: "rfind bot OBSERVATION = (int (length P) + 23 + int (length n) + int (length a))"
  proof -
    have "rfind bot OBSERVATION = int (length (P @ ACTION @ 32 # n @ ACTION_INPUT @ a))"
      unfolding b3
      by (rule rfind_last [OF ne(3)])
         (simp only: tl3_def no_observation_after [OF assms(6)] not_False_eq_True)
    then show ?thesis by (simp add: length_markers)
  qed
  have nm: "py_slice bot (Some (int (length P) + int (length ACTION)))
              (Some ((int (length P) + 9 + int (length n)))) = 32 # n"
  proof -
    have "py_slice ((P @ ACTION) @ (32 # n) @ (ACTION_INPUT @ tl2))
            (Some (int (length (P @ ACTION))))
            (Some (int (length (P @ ACTION) + length (32 # n)))) = 32 # n"
      by (rule py_slice_middle)
    then show ?thesis by (simp add: bot_def tl1_def length_markers algebra_simps)
  qed
  have ar: "py_slice bot (Some ((int (length P) + 9 + int (length n)) + int (length ACTION_INPUT)))
              (Some ((int (length P) + 23 + int (length n) + int (length a)))) = a"
  proof -
    have "py_slice ((P @ ACTION @ 32 # n @ ACTION_INPUT) @ a @ (OBSERVATION @ tl3))
            (Some (int (length (P @ ACTION @ 32 # n @ ACTION_INPUT))))
            (Some (int (length (P @ ACTION @ 32 # n @ ACTION_INPUT) + length a))) = a"
      by (rule py_slice_middle)
    then show ?thesis by (simp add: bot_def tl1_def tl2_def length_markers algebra_simps)
  qed
  have ct: "py_slice bot None (Some (int (length P))) = P"
    unfolding b1 by (rule py_slice_front)
  have sn: "strip (32 # n) = strip n"
    by (rule strip_space_Cons) (simp add: isspace_def)
  have "parse_function_response bot =
         Some \<lparr>delta_role = None, delta_content = Some P,
               delta_function_call = Some \<lparr>name = strip n, arguments = strip a\<rparr>\<rparr>"
    using assms(7) by (simp add: parse_function_response_def i j k nm ar ct sn Let_def)
  then show ?thesis by (simp add: bot_def tl1_def tl2_def tl3_def)
qed

lemma rstrip_all_space: "\<forall>d \<in> set w. isspace d \<Longrightarrow> rstrip w = []"
  by (simp add: rstrip_def)

lemma rstrip_after_nonspace:
  assumes "\<not> isspace c"
  shows "rstrip (X @ c # w) = X @ c # rstrip w"
proof -
  from assms have "rstrip (X @ c # w) = X @ rstrip (c # w)"
    by (simp add: rstrip_append)
  also from assms have "rstrip (c # w) = c # rstrip w"
    by (simp add: rstrip_Cons rstrip_all_space)
  finally show ?thesis .
qed

lemma marker_sublist_rstrip_space:
  assumes "marker m" and "\<not> sublist m a"
  shows "\<not> sublist m (rstrip (32 # a))"
proof
  assume "sublist m (rstrip (32 # a))"
  then have "sublist m (32 # a)" by (rule sublist_rstrip)
  with assms(1) have "sublist m a" by (simp add: marker_sublist_Cons_other)
  with assms(2) show False by simp
qed

lemma markers: "marker ACTION" "marker ACTION_INPUT" "marker OBSERVATION"
  by (simp_all add: marker_def ACTION_eq ACTION_INPUT_eq OBSERVATION_eq)

lemma strip_rstrip_space: "strip (rstrip (32 # a)) = strip a"
proof -
  have "strip (32 # a) = strip a" by (rule strip_space_Cons) (simp add: isspace_def)
  then show ?thesis by (simp add: strip_rstrip)
qed

text \<open>The content that the normalizer gives an assistant message with a function call.\<close>

lemma assistant_call_content:
  "\<exists>c1. assistant_content with_fs last_msg
           \<lparr>role = assistant, content = c, function_call = Some \<lparr>name = n, arguments = a\<rparr>\<rparr> =
         10 # c1 @ ACTION @ 32 # n @ ACTION_INPUT @ 32 # a \<and>
         (or_else c [] \<noteq> [] \<longrightarrow> c1 = or_else c []) \<and>
         (or_else c [] = [] \<longrightarrow> hd c1 = 84 \<and> c1 \<noteq> [])"
  by (simp add: assistant_content_def Let_def ACTION_eq ACTION_INPUT_eq py_def)

lemma folded_call_text:
  assumes "lstrip_chars [10] c1 \<noteq> []"
  shows "rstrip (lstrip_chars [10] (10 # c1 @ ACTION @ 32 # n @ ACTION_INPUT @ 32 # a)) =
         lstrip_chars [10] c1 @ ACTION @ 32 # n @ ACTION_INPUT @ rstrip (32 # a)"
proof -
  have "lstrip_chars [10] (10 # c1 @ ACTION @ 32 # n @ ACTION_INPUT @ 32 # a) =
        lstrip_chars [10] (c1 @ ACTION @ 32 # n @ ACTION_INPUT @ 32 # a)"
    by (simp add: lstrip_chars_def)
  also have "\<dots> = lstrip_chars [10] c1 @ ACTION @ 32 # n @ ACTION_INPUT @ 32 # a"
    using assms by (rule lstrip_chars_append)
  finally have l: "lstrip_chars [10] (10 # c1 @ ACTION @ 32 # n @ ACTION_INPUT @ 32 # a) =
      (lstrip_chars [10] c1 @ ACTION @ 32 # n @ butlast ACTION_INPUT) @ 58 # 32 # a"
    by (simp add: ACTION_INPUT_eq)
  have "rstrip ((lstrip_chars [10] c1 @ ACTION @ 32 # n @ butlast ACTION_INPUT) @ 58 # 32 # a) =
      (lstrip_chars [10] c1 @ ACTION @ 32 # n @ butlast ACTION_INPUT) @ 58 # rstrip (32 # a)"
    by (rule rstrip_after_nonspace) (simp add: isspace_def)
  with l show ?thesis by (simp add: ACTION_INPUT_eq)
qed

lemma history_turn_text:
  assumes "P0 \<noteq> []" and "hd P0 \<noteq> 10"
  shows "\<exists>P'. fold remove_dummy_thought DUMMY_THOUGHT_values
           (rstrip (lstrip_chars [10]
              (P0 @ ACTION @ 32 # n @ ACTION_INPUT @ a @ OBSERVATION @ 32 # ob @ py ''\<newline>Thought:''))) =
         P' @ ACTION @ 32 # n @ ACTION_INPUT @ a @ OBSERVATION @ 32 # ob @ py ''\<newline>Thought:''"
proof -
  let ?R = "n @ ACTION_INPUT @ a @ OBSERVATION @ 32 # ob @ py ''\<newline>Thought:''"
  let ?B = "P0 @ ACTION @ 32 # ?R"
  from assms have "lstrip_chars [10] ?B = ?B"
    by (intro lstrip_chars_id) simp_all
  moreover have "rstrip ?B = ?B"
    by (rule rstrip_nonspace_last) (simp_all add: py_def isspace_def)
  moreover have "?B = P0 @ py ''\<newline>Action: '' @ ?R"
    by (simp add: ACTION_eq py_def)
  moreover obtain P' where
    "fold remove_dummy_thought DUMMY_THOUGHT_values (P0 @ py ''\<newline>Action: '' @ ?R) =
       P' @ py ''\<newline>Action: '' @ ?R"
    using remove_dummy_thoughts_keep_action [of P0 ?R] by blast
  moreover have "P' @ py ''\<newline>Action: '' @ ?R = P' @ ACTION @ 32 # ?R"
    by (simp add: ACTION_eq py_def)
  ultimately show ?thesis by metis
qed

text \<open>
  Claim C5, amended. Take a conversation of a user message, an assistant message with
  a function call \<open>{name, arguments}\<close> and the function result. If the name does not
  contain \<open>"\nAction:"\<close>, the arguments contain neither \<open>"\nAction:"\<close> nor
  \<open>"\nAction Input:"\<close>, the function result contains none of the three markers, the
  name is not blank, and the assistant content is empty or has a character other than a
  newline, then the normalizer accepts the conversation, folds the call and its result
  into the assistant text of the one history turn, and the function-call extractor
  recovers from that text the pair \<open>{name, arguments}\<close>, each trimmed of surrounding
  whitespace.
\<close>

theorem folded_call_is_recovered:
  assumes "\<not> sublist ACTION n"
    and "\<not> sublist ACTION a" and "\<not> sublist ACTION_INPUT a"
    and "\<not> sublist ACTION (or_else co [])" and "\<not> sublist ACTION_INPUT (or_else co [])"
    and "\<not> sublist OBSERVATION (or_else co [])"
    and "strip n \<noteq> []"
    and "or_else c [] = [] \<or> lstrip_chars [10] (or_else c []) \<noteq> []"
  shows "\<exists>usr bot pre.
           parse_messages
             [\<lparr>role = user, content = cu, function_call = None\<rparr>,
              \<lparr>role = assistant, content = c, function_call = Some \<lparr>name = n, arguments = a\<rparr>\<rparr>,
              \<lparr>role = function_role, content = co, function_call = None\<rparr>] fs
             = Inr (TEXT_COMPLETION_CMD, [(usr, bot)]) \<and>
           parse_function_response bot =
             Some \<lparr>delta_role = None, delta_content = Some pre,
                   delta_function_call = Some \<lparr>name = strip n, arguments = strip a\<rparr>\<rparr>"
proof -
  let ?mu = "\<lparr>role = user, content = cu, function_call = None\<rparr>"
  let ?ma = "\<lparr>role = assistant, content = c, function_call = Some \<lparr>name = n, arguments = a\<rparr>\<rparr>"
  let ?mf = "\<lparr>role = function_role, content = co, function_call = None\<rparr>"
  let ?U = "rstrip (lstrip_chars [10] (or_else cu []))"
  let ?ob = "or_else co []"
  let ?a = "rstrip (32 # a)"
  obtain c1 where c1: "assistant_content (truthy fs) ?U ?ma =
         10 # c1 @ ACTION @ 32 # n @ ACTION_INPUT @ 32 # a"
    and c1a: "or_else c [] \<noteq> [] \<longrightarrow> c1 = or_else c []"
    and c1b: "or_else c [] = [] \<longrightarrow> hd c1 = 84 \<and> c1 \<noteq> []"
    using assistant_call_content [of "truthy fs" ?U c n a] by blast
  have ne: "lstrip_chars [10] c1 \<noteq> []"
  proof (cases "or_else c [] = []")
    case True
    with c1b have "c1 \<noteq> []" "hd c1 \<notin> set [10]" by simp_all
    then have "lstrip_chars [10] c1 = c1" by (rule lstrip_chars_id)
    with \<open>c1 \<noteq> []\<close> show ?thesis by simp
  next
    case False
    with c1a assms(8) show ?thesis by simp
  qed
  define P0 where "P0 = lstrip_chars [10] c1"
  from ne have P0: "P0 \<noteq> []" "hd P0 \<noteq> 10"
    using lstrip_chars_hd [of "[10]" c1] by (simp_all add: P0_def)
  have folded: "rstrip (lstrip_chars [10] (assistant_content (truthy fs) ?U ?ma)) =
      P0 @ ACTION @ 32 # n @ ACTION_INPUT @ ?a"
    by (simp only: c1 P0_def folded_call_text [OF ne])
  define B where "B = P0 @ ACTION @ 32 # n @ ACTION_INPUT @ ?a @ OBSERVATION @ 32 # ?ob @ py ''\<newline>Thought:''"
  have norm: "normalize (truthy fs) [?mu, ?ma, ?mf] [] = Inr [(user, ?U), (assistant, B)]"
    by (simp add: append_content_def Let_def folded B_def OBSERVATION_eq py_def)
  obtain P' where bot: "fold remove_dummy_thought DUMMY_THOUGHT_values (rstrip (lstrip_chars [10] B)) =
      P' @ ACTION @ 32 # n @ ACTION_INPUT @ ?a @ OBSERVATION @ 32 # ?ob @ py ''\<newline>Thought:''"
    unfolding B_def using history_turn_text [OF P0, of n ?a ?ob] by blast
  define bot where "bot = P' @ ACTION @ 32 # n @ ACTION_INPUT @ ?a @ OBSERVATION @ 32 # ?ob @ py ''\<newline>Thought:''"
  define usr where "usr = (if fold_functions [] fs \<noteq> [] then fold_functions [] fs @ QUESTION @ rstrip (lstrip_chars [10] ?U)
      else rstrip (lstrip_chars [10] ?U))"
  have bh: "build_history (fold_functions [] fs) [(user, ?U), (assistant, B)] [] = Inr ([], [(usr, bot)])"
    by (simp add: Let_def bot bot_def usr_def)
  have ex: "extract_system [?mu, ?ma, ?mf] = Inr ([], [?mu, ?ma, ?mf])"
    by (simp add: extract_system_def)
  have pm: "parse_messages [?mu, ?ma, ?mf] fs = Inr (TEXT_COMPLETION_CMD, [(usr, bot)])"
    by (simp add: parse_messages_def ex norm bh del: normalize.simps build_history.simps)
  have pf: "parse_function_response bot =
             Some \<lparr>delta_role = None, delta_content = Some P',
                   delta_function_call = Some \<lparr>name = strip n, arguments = strip ?a\<rparr>\<rparr>"
    unfolding bot_def
    by (rule parse_folded_call)
       (simp_all add: assms marker_sublist_rstrip_space markers)
  from pm pf show ?thesis by (auto simp add: strip_rstrip_space)
qed

lemmas extraction_defs = parse_function_response_def rfind_def ACTION_eq ACTION_INPUT_eq
  OBSERVATION_eq py_def py_slice_def slice_bound_def strip_def lstrip_def rstrip_def isspace_def

lemma parse_call_round:
  "parse_messages [user_message ''q'', call_message ''t'' ''f'' ''{}'', result_message ''r''] None =
     Inr (TEXT_COMPLETION_CMD,
          [(py ''q'', py ''t\<newline>Action: f\<newline>Action Input: {}\<newline>Observation: r\<newline>Thought:'')])"
  by (simp add: parse_messages_def message_defs call_message_def result_message_def
      normalizer_defs sublist_code)

lemma parse_call_round_marked:
  "parse_messages [user_message ''q'', call_message ''t'' ''f'' ''{}'',
                   result_message ''x\<newline>Action: g\<newline>Action Input: h''] None =
     Inr (TEXT_COMPLETION_CMD,
          [(py ''q'', py ''t\<newline>Action: f\<newline>Action Input: {}\<newline>Observation: x\<newline>Action: g\<newline>Action Input: h\<newline>Thought:'')])"
  by (simp add: parse_messages_def message_defs call_message_def result_message_def
      normalizer_defs sublist_code)

lemma extract_marked:
  "parse_function_response
     (py ''t\<newline>Action: f\<newline>Action Input: {}\<newline>Observation: x\<newline>Action: g\<newline>Action Input: h\<newline>Thought:'') =
   Some \<lparr>delta_role = None,
         delta_content = Some (py ''t\<newline>Action: f\<newline>Action Input: {}\<newline>Observation: x''),
         delta_function_call = Some \<lparr>name = py ''g'', arguments = py ''h\<newline>Thought:''\<rparr>\<rparr>"
  by (simp add: extraction_defs)

lemma example_call_free_of_markers:
  "\<not> sublist ACTION (py ''f'')" "\<not> sublist ACTION (py ''{}'')"
  "\<not> sublist ACTION_INPUT (py ''{}'')" "\<not> sublist ACTION (py ''r'')"
  "\<not> sublist ACTION_INPUT (py ''r'')" "\<not> sublist OBSERVATION (py ''r'')"
  by (simp_all add: ACTION_eq ACTION_INPUT_eq OBSERVATION_eq py_def sublist_code)

lemma example_call_trimmed:
  "strip (py ''f'') = py ''f''" "strip (py ''{}'') = py ''{}''"
  "lstrip_chars [10] (py ''t'') = py ''t''"
  by (simp_all add: strip_def lstrip_def rstrip_def isspace_def lstrip_chars_def py_def)

theorem folded_call_is_recovered_witness:
  "\<not> sublist ACTION (py ''f'') \<and> \<not> sublist ACTION (py ''{}'') \<and>
   \<not> sublist ACTION_INPUT (py ''{}'') \<and> \<not> sublist ACTION (py ''r'') \<and>
   \<not> sublist ACTION_INPUT (py ''r'') \<and> \<not> sublist OBSERVATION (py ''r'') \<and>
   strip (py ''f'') = py ''f'' \<and> lstrip_chars [10] (py ''t'') = py ''t'' \<and>
   parse_messages [user_message ''q'', call_message ''t'' ''f'' ''{}'', result_message ''r''] None =
     Inr (TEXT_COMPLETION_CMD,
          [(py ''q'', py ''t\<newline>Action: f\<newline>Action Input: {}\<newline>Observation: r\<newline>Thought:'')]) \<and>
   map_option delta_function_call
     (parse_function_response
        (py ''t\<newline>Action: f\<newline>Action Input: {}\<newline>Observation: r\<newline>Thought:'')) =
     Some (Some \<lparr>name = py ''f'', arguments = py ''{}''\<rparr>)"
proof -
  let ?B = "py ''t\<newline>Action: f\<newline>Action Input: {}\<newline>Observation: r\<newline>Thought:''"
  have o: "or_else (Some (py ''r'')) [] = py ''r''" "or_else (Some (py ''t'')) [] = py ''t''"
    by (simp_all add: or_else_def py_def)
  have t: "py ''t'' \<noteq> []" "py ''f'' \<noteq> []" by (simp_all add: py_def)
  have h7: "strip (py ''f'') \<noteq> []" by (simp add: example_call_trimmed t)
  have h8: "or_else (Some (py ''t'')) [] = [] \<or> lstrip_chars [10] (or_else (Some (py ''t'')) []) \<noteq> []"
    by (simp add: o example_call_trimmed t)
  from folded_call_is_recovered [of "py ''f''" "py ''{}''" "Some (py ''r'')" "Some (py ''t'')" "Some (py ''q'')" None,
      unfolded o, OF example_call_free_of_markers h7 h8 [unfolded o]]
  obtain usr bot pre where
    pm: "parse_messages
           [\<lparr>role = user, content = Some (py ''q''), function_call = None\<rparr>,
            \<lparr>role = assistant, content = Some (py ''t''),
               function_call = Some \<lparr>name = py ''f'', arguments = py ''{}''\<rparr>\<rparr>,
            \<lparr>role = function_role, content = Some (py ''r''), function_call = None\<rparr>] None
           = Inr (TEXT_COMPLETION_CMD, [(usr, bot)])"
    and pf: "parse_function_response bot =
             Some \<lparr>delta_role = None, delta_content = Some pre,
                   delta_function_call = Some \<lparr>name = strip (py ''f''), arguments = strip (py ''{}'')\<rparr>\<rparr>"
    by blast
  from pm parse_call_round have "bot = ?B"
    by (simp add: message_defs call_message_def result_message_def)
  with pf have "map_option delta_function_call (parse_function_response ?B) =
     Some (Some \<lparr>name = py ''f'', arguments = py ''{}''\<rparr>)"
    by (simp add: example_call_trimmed)
  with example_call_free_of_markers example_call_trimmed parse_call_round show ?thesis
    by blast
qed

text \<open>
  Claim C5 as stated fails: the call \<open>f({})\<close> contains no marker, but its result
  \<open>"x\nAction: g\nAction Input: h"\<close> does, and the extractor returns the call \<open>g\<close> with the
  arguments \<open>"h\nThought:"\<close>.
\<close>

theorem markers_in_result_change_recovered_call:
  "\<not> sublist ACTION (py ''f'') \<and> \<not> sublist ACTION_INPUT (py ''f'') \<and>
   \<not> sublist OBSERVATION (py ''f'') \<and> \<not> sublist ACTION (py ''{}'') \<and>
   \<not> sublist ACTION_INPUT (py ''{}'') \<and> \<not> sublist OBSERVATION (py ''{}'') \<and>
   parse_messages [user_message ''q'', call_message ''t'' ''f'' ''{}'',
                   result_message ''x\<newline>Action: g\<newline>Action Input: h''] None =
     Inr (TEXT_COMPLETION_CMD,
          [(py ''q'', py ''t\<newline>Action: f\<newline>Action Input: {}\<newline>Observation: x\<newline>Action: g\<newline>Action Input: h\<newline>Thought:'')]) \<and>
   parse_function_response
     (py ''t\<newline>Action: f\<newline>Action Input: {}\<newline>Observation: x\<newline>Action: g\<newline>Action Input: h\<newline>Thought:'') =
   Some \<lparr>delta_role = None,
         delta_content = Some (py ''t\<newline>Action: f\<newline>Action Input: {}\<newline>Observation: x''),
         delta_function_call = Some \<lparr>name = py ''g'', arguments = py ''h\<newline>Thought:''\<rparr>\<rparr> \<and>
   py ''g'' \<noteq> strip (py ''f'')"
proof -
  have "\<not> sublist ACTION (py ''f'')" "\<not> sublist ACTION_INPUT (py ''f'')"
    "\<not> sublist OBSERVATION (py ''f'')" "\<not> sublist ACTION (py ''{}'')"
    "\<not> sublist ACTION_INPUT (py ''{}'')" "\<not> sublist OBSERVATION (py ''{}'')"
    by (simp_all add: ACTION_eq ACTION_INPUT_eq OBSERVATION_eq py_def sublist_code)
  moreover have "py ''g'' \<noteq> strip (py ''f'')"
    by (simp add: example_call_trimmed) (simp add: py_def)
  ultimately show ?thesis
    using parse_call_round_marked extract_marked by blast
qed

section \<open>Runs of the streaming assembler\<close>

lemma stream_loop_token_length:
  "k \<le> length pos \<Longrightarrow>
   output_token_length (fst (stream_loop n s (take k pos))) =
     (if k = 0 then output_token_length s else output_token_length_po (pos ! (k - 1)))"
proof (induction k)
  case 0
  show ?case by simp
next
  case (Suc k)
  then have "k < length pos" by simp
  then show ?case
    by (simp add: stream_loop_take_Suc) (simp add: stream_step_def Let_def)
qed

text \<open>
  Claim C9, amended. Every object yielded by the streaming assembler other than a role
  announcement carries usage counters: \<open>prompt_tokens\<close> is the prompt's token length,
  \<open>completion_tokens\<close> is the token count of the latest processed output (the ids left
  after the end-of-sequence ids and the prompt are removed) and \<open>total_tokens\<close> is their
  sum. A role announcement carries no usage; it is yielded at the start of an update
  exactly when the token count recorded before that update is 0, that is at the first
  update and at every update whose preceding output had no token.
\<close>

theorem usage_on_every_delta_but_announcements:
  "(\<forall>k < length pos.
      output_token_length (fst (stream_loop n initial_vars (take k pos))) =
        (if k = 0 then 0 else output_token_length_po (pos ! (k - 1)))) \<and>
   output_token_length (fst (stream_step n s po)) = output_token_length_po po \<and>
   usage (role_delta (index_v s)) = None \<and>
   (\<exists>rest. snd (stream_step n s po) =
             (if output_token_length s = 0 then [role_delta (index_v s)] else []) @ rest \<and>
           (\<forall>e \<in> set rest.
              usage e = Some \<lparr>prompt_tokens = n, total_tokens = n + output_token_length_po po,
                                completion_tokens = output_token_length_po po\<rparr>)) \<and>
   (\<forall>e \<in> set (stream_finish n s).
      usage e = Some \<lparr>prompt_tokens = n, total_tokens = n + output_token_length s,
                        completion_tokens = output_token_length s\<rparr>) \<and>
   output_token_length_po (process_output_ids_tensor r n ids fin) =
     length (drop n (filter (\<lambda>t. t \<noteq> eos_token_id r) ids))"
proof -
  have z: "\<forall>k < length pos.
      output_token_length (fst (stream_loop n initial_vars (take k pos))) =
        (if k = 0 then 0 else output_token_length_po (pos ! (k - 1)))"
    by (simp add: stream_loop_token_length) (simp add: initial_vars_def)
  have a: "output_token_length (fst (stream_step n s po)) = output_token_length_po po"
    by (simp add: stream_step_def Let_def)
  have u: "usage (role_delta (index_v s)) = None"
    by (simp add: role_delta_def)
  have b: "\<exists>rest. snd (stream_step n s po) =
             (if output_token_length s = 0 then [role_delta (index_v s)] else []) @ rest \<and>
           (\<forall>e \<in> set rest.
              usage e = Some \<lparr>prompt_tokens = n, total_tokens = n + output_token_length_po po,
                                completion_tokens = output_token_length_po po\<rparr>)"
    by (simp add: stream_step_def Let_def content_delta_def usage_info_def)
  have c: "\<forall>e \<in> set (stream_finish n s).
      usage e = Some \<lparr>prompt_tokens = n, total_tokens = n + output_token_length s,
                        completion_tokens = output_token_length s\<rparr>"
    unfolding stream_finish_def Let_def
    by (simp add: content_delta_def usage_info_def split_beta split: option.split)
  have d: "output_token_length_po (process_output_ids_tensor r n ids fin) =
     length (drop n (filter (\<lambda>t. t \<noteq> eos_token_id r) ids))"
    by (simp add: process_output_ids_tensor_def Let_def)
  from z a u b c d show ?thesis by blast
qed

theorem usage_on_every_delta_but_announcements_witness:
  "output_token_length initial_vars = 0 \<and>
   snd (stream_step 5 initial_vars example_output) =
     [role_delta 0, content_delta 0 (py ''abc'') None (usage_info 5 3)] \<and>
   usage (role_delta 0) = None \<and>
   usage (content_delta 0 (py ''abc'') None (usage_info 5 3)) =
     Some \<lparr>prompt_tokens = 5, total_tokens = 8, completion_tokens = 3\<rparr> \<and>
   output_token_length (fst (stream_loop 5 initial_vars (take 1 example_run))) = 3 \<and>
   snd (stream_step 5 (fst (stream_loop 5 initial_vars (take 1 example_run))) latch_output) = [] \<and>
   content_delta 1 [] (Some FR_stop) (usage_info 5 0) \<in> set (stream_finish 5 initial_vars) \<and>
   usage (content_delta 1 [] (Some FR_stop) (usage_info 5 0)) =
     Some \<lparr>prompt_tokens = 5, total_tokens = 5, completion_tokens = 0\<rparr>"
proof -
  let ?e = "content_delta 0 (py ''abc'') None (usage_info 5 3)"
  let ?t = "content_delta 1 [] (Some FR_stop) (usage_info 5 0)"
  let ?s1 = "fst (stream_loop 5 initial_vars (take 1 example_run))"
  note t = usage_on_every_delta_but_announcements [of example_run 5 initial_vars example_output example_renderer "[]" False]
  note t1 = usage_on_every_delta_but_announcements [of example_run 5 ?s1 latch_output example_renderer "[]" False]
  have l0: "output_token_length initial_vars = 0" "index_v initial_vars = 0"
    by (simp_all add: initial_vars_def)
  have l3: "output_token_length_po example_output = 3"
    by (simp add: example_output_def)
  from t obtain rest where
    r: "snd (stream_step 5 initial_vars example_output) =
          (if output_token_length initial_vars = 0 then [role_delta (index_v initial_vars)] else []) @ rest"
    and ru: "\<forall>e \<in> set rest.
              usage e = Some \<lparr>prompt_tokens = 5, total_tokens = 5 + output_token_length_po example_output,
                                completion_tokens = output_token_length_po example_output\<rparr>"
    by blast
  from r have "rest = [?e]" by (simp add: step_example l0)
  with ru have u1: "usage ?e = Some \<lparr>prompt_tokens = 5, total_tokens = 8, completion_tokens = 3\<rparr>"
    by (simp add: l3)
  from t have u0: "usage (role_delta 0) = None" by (simp add: l0)
  have m2: "?t \<in> set (stream_finish 5 initial_vars)"
    by (simp add: finish_initial)
  with t have u2: "usage ?t = Some \<lparr>prompt_tokens = 5, total_tokens = 5, completion_tokens = 0\<rparr>"
    by (simp add: l0)
  have "(1::nat) < length example_run" by (simp add: example_run_def)
  with t have k1: "output_token_length ?s1 = output_token_length_po (example_run ! 0)"
    by simp
  then have k: "output_token_length ?s1 = 3" by (simp add: example_run_def l3)
  from t1 obtain rest1 where
    "snd (stream_step 5 ?s1 latch_output) =
          (if output_token_length ?s1 = 0 then [role_delta (index_v ?s1)] else []) @ rest1"
    by blast
  then have "snd (stream_step 5 ?s1 latch_output) = rest1" by (simp only: k) simp
  moreover have "snd (stream_step 5 ?s1 latch_output) = []"
    unfolding run_state1 by (simp add: stream_step_def latch_output_def eval_defs ACTION_eq)
  ultimately have e: "snd (stream_step 5 ?s1 latch_output) = []" by simp
  from l0(1) step_example u0 u1 k e m2 u2 show ?thesis by simp
qed

text \<open>
  Claim C9 as stated fails: the first object of a run is the role announcement, and its
  usage is absent.
\<close>

theorem role_announcement_without_usage:
  "hd (render_response_stream example_renderer [ids_of ''abcdefghij''] 0) = role_delta 0 \<and>
   usage (role_delta 0) = None"
  by (simp add: render_response_stream_def process_example stream_step_def Let_def split_beta initial_vars_def role_delta_def)

text \<open>
  Claim C8, amended. Along a run whose trimmed decoded output never gets shorter from
  one update to the next, \<open>responded_length \<le> len(output_string)\<close> holds after every
  update. In every run, whatever its outputs, once \<open>generating_function_call\<close> is true
  after some update it is true after every later one.
\<close>

theorem latch_holds_and_length_bounded_when_growing:
  "(sorted_wrt (\<le>) (map (\<lambda>po. length (strip (output_str po))) pos) \<longrightarrow>
      (\<forall>k \<le> length pos.
         responded_length (fst (stream_loop n initial_vars (take k pos)))
           \<le> length (output_string (fst (stream_loop n initial_vars (take k pos)))))) \<and>
   (\<forall>m k. m \<le> k \<longrightarrow>
      generating_function_call (fst (stream_loop n initial_vars (take m pos))) \<longrightarrow>
      generating_function_call (fst (stream_loop n initial_vars (take k pos))))"
proof (intro conjI impI allI)
  fix k
  assume srt: "sorted_wrt (\<le>) (map (\<lambda>po. length (strip (output_str po))) pos)"
  then have "sorted_wrt (\<le>) (take k (map (\<lambda>po. length (strip (output_str po))) pos))"
    by (rule sorted_wrt_take)
  then have "sorted_wrt (\<le>) (map (\<lambda>po. length (strip (output_str po))) (take k pos))"
    by (simp add: take_map)
  then show "responded_length (fst (stream_loop n initial_vars (take k pos)))
           \<le> length (output_string (fst (stream_loop n initial_vars (take k pos))))"
    by (rule stream_loop_invariant)
next
  fix m k :: nat
  assume mk: "m \<le> k"
    and g: "generating_function_call (fst (stream_loop n initial_vars (take m pos)))"
  from mk have "take k pos = take m pos @ drop m (take k pos)"
    by (metis append_take_drop_id min.absorb_iff1 take_take)
  then have "fst (stream_loop n initial_vars (take k pos)) =
      fst (stream_loop n (fst (stream_loop n initial_vars (take m pos))) (drop m (take k pos)))"
    by (metis stream_loop_append)
  with g show "generating_function_call (fst (stream_loop n initial_vars (take k pos)))"
    by (simp add: stream_loop_latch)
qed

lemma shrinking_run_state1:
  "fst (stream_loop 5 initial_vars (take 1 [latch_output, example_output])) =
     initial_vars\<lparr>output_string := py ''abcdefghij\<newline>Action:'', output_length := 18,
        output_token_length := 5, generating_function_call := True\<rparr>"
  by (simp add: stream_step_def latch_output_def eval_defs ACTION_eq)

theorem latch_holds_and_length_bounded_when_growing_witness:
  "sorted_wrt (\<le>) (map (\<lambda>po. length (strip (output_str po))) example_run) \<and>
   3 \<le> length example_run \<and>
   responded_length (fst (stream_loop 5 initial_vars (take 3 example_run))) = 3 \<and>
   length (output_string (fst (stream_loop 5 initial_vars (take 3 example_run)))) = 37 \<and>
   generating_function_call (fst (stream_loop 5 initial_vars (take 2 example_run))) \<and>
   generating_function_call (fst (stream_loop 5 initial_vars (take 3 example_run))) \<and>
   \<not> sorted_wrt (\<le>) (map (\<lambda>po. length (strip (output_str po))) [latch_output, example_output]) \<and>
   generating_function_call (fst (stream_loop 5 initial_vars (take 1 [latch_output, example_output]))) \<and>
   generating_function_call (fst (stream_loop 5 initial_vars (take 2 [latch_output, example_output])))"
proof -
  have k: "3 \<le> length example_run" by (simp add: example_run_def)
  have g2: "generating_function_call (fst (stream_loop 5 initial_vars (take 2 example_run)))"
    by (simp add: run_state2)
  note t = latch_holds_and_length_bounded_when_growing [of example_run 5]
  note t' = latch_holds_and_length_bounded_when_growing [of "[latch_output, example_output]" 5]
  have "(2::nat) \<le> 3" by simp
  with t g2 have g3: "generating_function_call (fst (stream_loop 5 initial_vars (take 3 example_run)))"
    by blast
  from t run_sorted k have b: "responded_length (fst (stream_loop 5 initial_vars (take 3 example_run)))
      \<le> length (output_string (fst (stream_loop 5 initial_vars (take 3 example_run))))"
    by blast
  have r: "responded_length (fst (stream_loop 5 initial_vars (take 3 example_run))) = 3"
    by (simp add: run_state3)
  have l: "length (output_string (fst (stream_loop 5 initial_vars (take 3 example_run)))) = 37"
    by (simp add: run_state3 py_def)
  have ns: "\<not> sorted_wrt (\<le>) (map (\<lambda>po. length (strip (output_str po))) [latch_output, example_output])"
    by (simp add: latch_output_def eval_defs)
  have h1: "generating_function_call (fst (stream_loop 5 initial_vars (take 1 [latch_output, example_output])))"
    by (simp only: shrinking_run_state1) simp
  have "(1::nat) \<le> 2" by simp
  with t' h1 have h2: "generating_function_call (fst (stream_loop 5 initial_vars (take 2 [latch_output, example_output])))"
    by blast
  from run_sorted k b r l g2 g3 ns h1 h2 show ?thesis by blast
qed

text \<open>
  Claim C8 as stated fails: with the stop word \<open>Observation:\<close> configured, the token
  history grows from \<open>The Observation\<close> to \<open>The Observation:\<close>, the processed output
  shrinks to \<open>The\<close>, and \<open>responded_length\<close> stays at 8.
\<close>

theorem responded_length_exceeds_shrunk_output:
  "responded_length (fst (stream_loop 0 initial_vars
      [process_output_ids_tensor example_renderer 0 (ids_of ''The Observation'') False,
       process_output_ids_tensor example_renderer 0 (ids_of ''The Observation:'') False])) = 8 \<and>
   output_string (fst (stream_loop 0 initial_vars
      [process_output_ids_tensor example_renderer 0 (ids_of ''The Observation'') False,
       process_output_ids_tensor example_renderer 0 (ids_of ''The Observation:'') False])) = py ''The'' \<and>
   \<not> (8::nat) \<le> length (py ''The'')"
  by (simp add: process_shrink1 process_shrink2 split_beta)
     (simp add: stream_step_def eval_defs ACTION_eq)

lemma stream_loop_events_snoc:
  "snd (stream_loop n s (pos @ [po])) =
     snd (stream_loop n s pos) @ snd (stream_step n (fst (stream_loop n s pos)) po)"
  by (induction pos arbitrary: s) (simp_all add: split_beta Let_def)

lemma stream_loop_event_step:
  "e \<in> set (snd (stream_loop n s pos)) \<Longrightarrow>
   \<exists>k < length pos. e \<in> set (snd (stream_step n (fst (stream_loop n s (take k pos))) (pos ! k)))"
proof (induction pos rule: rev_induct)
  case Nil
  then show ?case by simp
next
  case (snoc po pos)
  from snoc.prems consider "e \<in> set (snd (stream_loop n s pos))"
    | "e \<in> set (snd (stream_step n (fst (stream_loop n s pos)) po))"
    by (auto simp add: stream_loop_events_snoc)
  then show ?case
  proof cases
    case 1
    with snoc.IH obtain k where "k < length pos"
      "e \<in> set (snd (stream_step n (fst (stream_loop n s (take k pos))) (pos ! k)))"
      by blast
    then show ?thesis
      by (intro exI [of _ k]) (simp add: nth_append)
  next
    case 2
    then show ?thesis
      by (intro exI [of _ "length pos"]) simp
  qed
qed

lemma sublist_py_slice: "sublist (py_slice s a b) s"
proof -
  have "sublist (take k (drop l s)) s" for k l
    by (meson sublist_drop sublist_take sublist_order.order.trans)
  then show ?thesis by (simp add: py_slice_def Let_def)
qed

lemma stream_step_content:
  assumes "e \<in> set (snd (stream_step n s po))" and "c \<in> set (choices e)"
    and "delta_content (delta c) = Some t"
  shows "\<not> generating_function_call (fst (stream_step n s po)) \<and>
         sublist t (strip (output_str po))"
  using assms sublist_py_slice
  by (auto simp add: stream_step_def Let_def role_delta_def content_delta_def split: if_splits)

lemma parse_function_response_content:
  assumes "parse_function_response r = Some fm"
  shows "0 \<le> rfind r ACTION \<and>
         (delta_content fm = Some (py_slice r None (Some (rfind r ACTION))) \<or>
          delta_content fm = Some (py_slice (rstrip r @ OBSERVATION) None (Some (rfind r ACTION))))"
  using assms
  by (auto simp add: parse_function_response_def Let_def split: if_splits)

lemma stream_finish_call:
  assumes "generating_function_call s"
    and "parse_function_response
           (py_slice (output_string s) (Some (int (responded_length s))) None) = Some fm"
  shows "stream_finish n s =
     [\<lparr>choices = [\<lparr>index = index_v s, delta = fm, finish_reason = Some FR_function_call\<rparr>],
       usage = Some (usage_info n (output_token_length s))\<rparr>,
      content_delta (index_v s + 1) [] (Some FR_function_call)
        (usage_info n (output_token_length s))]"
  using assms by (simp add: stream_finish_def Let_def)

lemma sublist_chain: "sublist a b \<Longrightarrow> sublist b c \<Longrightarrow> sublist a c"
  by (meson sublist_order.order.trans)

lemma call_content_before_marker:
  assumes os: "os = X @ ACTION @ Y"
    and x: "\<not> sublist ACTION X" and y: "\<not> sublist ACTION (tl (ACTION @ Y))"
    and p: "parse_function_response (py_slice os (Some (int rl)) None) = Some fm"
    and t: "delta_content fm = Some t"
  shows "\<not> sublist ACTION t"
proof -
  let ?r = "py_slice os (Some (int rl)) None"
  have r: "?r = drop rl os" by (simp add: py_slice_from)
  from parse_function_response_content [OF p]
  have i: "0 \<le> rfind ?r ACTION"
    and c: "delta_content fm = Some (py_slice ?r None (Some (rfind ?r ACTION))) \<or>
            delta_content fm = Some (py_slice (rstrip ?r @ OBSERVATION) None (Some (rfind ?r ACTION)))"
    by blast+
  have occ: "sublist ACTION ?r"
  proof (rule ccontr)
    assume "\<not> sublist ACTION ?r"
    then have "rfind_from ACTION ?r = None" by (simp add: rfind_from_None_iff)
    with i show False by (simp add: rfind_def)
  qed
  have le: "rl \<le> length X"
  proof (rule ccontr)
    assume "\<not> rl \<le> length X"
    then have "drop rl os = drop (rl - length X - 1) (tl (ACTION @ Y))"
      by (simp add: os drop_tl [symmetric] drop_Suc [symmetric] del: drop_tl)
         (metis Suc_diff_Suc drop_Suc not_le_imp_less)
    then have "sublist (drop rl os) (tl (ACTION @ Y))" by simp
    with occ r have "sublist ACTION (tl (ACTION @ Y))" by (metis sublist_chain)
    with y show False by simp
  qed
  then have r': "?r = drop rl X @ ACTION @ Y" unfolding r by (simp add: os)
  have ne: "ACTION \<noteq> []" by (simp add: ACTION_eq)
  have idx: "rfind ?r ACTION = int (length (drop rl X))"
    unfolding r' by (rule rfind_last [OF ne y])
  have t1: "py_slice ?r None (Some (rfind ?r ACTION)) = drop rl X"
    unfolding idx unfolding r' by (rule py_slice_front)
  have "rstrip ?r = (drop rl X @ butlast ACTION) @ 58 # rstrip Y"
  proof -
    have "?r = (drop rl X @ butlast ACTION) @ 58 # Y" by (simp add: r' ACTION_eq)
    moreover have "rstrip ((drop rl X @ butlast ACTION) @ 58 # Y) =
        (drop rl X @ butlast ACTION) @ 58 # rstrip Y"
      by (rule rstrip_after_nonspace) (simp add: isspace_def)
    ultimately show ?thesis by simp
  qed
  then have "rstrip ?r @ OBSERVATION = drop rl X @ (butlast ACTION @ 58 # rstrip Y @ OBSERVATION)"
    by simp
  then have t2: "py_slice (rstrip ?r @ OBSERVATION) None (Some (rfind ?r ACTION)) = drop rl X"
    unfolding idx by (simp only: py_slice_front)
  from c t t1 t2 have "t = drop rl X" by auto
  then have "sublist t X" by simp
  with x show ?thesis by (metis sublist_chain)
qed

text \<open>
  Claim C1, amended. Take a run in which \<open>generating_function_call\<close> becomes true. If
  the trimmed output of every update that leaves the latch off does not contain
  \<open>"\nAction:"\<close>, the extraction of the function call from the unflushed text succeeds,
  and the last trimmed output contains \<open>"\nAction:"\<close> exactly once, then no content of
  any yielded object (the streamed deltas, the content of the function-call delta, the
  terminal delta) contains \<open>"\nAction:"\<close>. In every run, the update at which the latch
  becomes true and every later update yield no content at all.
\<close>

theorem no_marker_in_content_of_clean_run:
  assumes "pos = map (\<lambda>ids. process_output_ids_tensor r n ids False) outputs"
  shows
    "(generating_function_call (fst (stream_loop n initial_vars pos)) \<longrightarrow>
      (\<forall>k < length pos.
          \<not> generating_function_call (fst (stream_loop n initial_vars (take (Suc k) pos))) \<longrightarrow>
          \<not> sublist ACTION (strip (output_str (pos ! k)))) \<longrightarrow>
      parse_function_response
        (py_slice (output_string (fst (stream_loop n initial_vars pos)))
           (Some (int (responded_length (fst (stream_loop n initial_vars pos))))) None) \<noteq> None \<longrightarrow>
      (\<exists>X Y. output_string (fst (stream_loop n initial_vars pos)) = X @ ACTION @ Y \<and>
             \<not> sublist ACTION X \<and> \<not> sublist ACTION (tl (ACTION @ Y))) \<longrightarrow>
      (\<forall>e \<in> set (render_response_stream r outputs n). \<forall>c \<in> set (choices e).
          \<forall>t. delta_content (delta c) = Some t \<longrightarrow> \<not> sublist ACTION t)) \<and>
     (\<forall>m k. m \<le> k \<longrightarrow> k < length pos \<longrightarrow>
        generating_function_call (fst (stream_loop n initial_vars (take (Suc m) pos))) \<longrightarrow>
        (\<forall>e \<in> set (snd (stream_step n (fst (stream_loop n initial_vars (take k pos))) (pos ! k))).
           \<forall>c \<in> set (choices e). delta_content (delta c) = None))"
proof (intro conjI impI allI ballI)
  fix e c t
  let ?sf = "fst (stream_loop n initial_vars pos)"
  assume g: "generating_function_call ?sf"
    and clean: "\<forall>k < length pos.
          \<not> generating_function_call (fst (stream_loop n initial_vars (take (Suc k) pos))) \<longrightarrow>
          \<not> sublist ACTION (strip (output_str (pos ! k)))"
    and ok: "parse_function_response
        (py_slice (output_string ?sf) (Some (int (responded_length ?sf))) None) \<noteq> None"
    and once: "\<exists>X Y. output_string ?sf = X @ ACTION @ Y \<and>
             \<not> sublist ACTION X \<and> \<not> sublist ACTION (tl (ACTION @ Y))"
    and e: "e \<in> set (render_response_stream r outputs n)"
    and c: "c \<in> set (choices e)"
    and t: "delta_content (delta c) = Some t"
  have ev: "render_response_stream r outputs n =
              snd (stream_loop n initial_vars pos) @ stream_finish n ?sf"
    by (simp add: render_response_stream_def Let_def split_beta assms)
  from e ev consider "e \<in> set (snd (stream_loop n initial_vars pos))"
    | "e \<in> set (stream_finish n ?sf)"
    by auto
  then show "\<not> sublist ACTION t"
  proof cases
    case 1
    then obtain k where k: "k < length pos"
      and ek: "e \<in> set (snd (stream_step n (fst (stream_loop n initial_vars (take k pos))) (pos ! k)))"
      using stream_loop_event_step by blast
    from stream_step_content [OF ek c t]
    have ng: "\<not> generating_function_call
                (fst (stream_step n (fst (stream_loop n initial_vars (take k pos))) (pos ! k)))"
      and sub: "sublist t (strip (output_str (pos ! k)))"
      by blast+
    from ng k have "\<not> generating_function_call (fst (stream_loop n initial_vars (take (Suc k) pos)))"
      by (simp add: stream_loop_take_Suc)
    with clean k have "\<not> sublist ACTION (strip (output_str (pos ! k)))" by blast
    with sub show ?thesis by (metis sublist_chain)
  next
    case 2
    from ok obtain fm where fm: "parse_function_response
        (py_slice (output_string ?sf) (Some (int (responded_length ?sf))) None) = Some fm"
      by blast
    from once obtain X Y where xy: "output_string ?sf = X @ ACTION @ Y"
      "\<not> sublist ACTION X" "\<not> sublist ACTION (tl (ACTION @ Y))"
      by blast
    from 2 c t have "delta_content fm = Some t \<or> t = []"
      by (auto simp add: stream_finish_call [OF g fm] content_delta_def)
    then show ?thesis
    proof
      assume "delta_content fm = Some t"
      with xy fm show ?thesis by (rule call_content_before_marker)
    next
      assume "t = []"
      then show ?thesis by (simp add: ACTION_eq)
    qed
  qed
next
  fix m k e c
  assume mk: "m \<le> k" and k: "k < length pos"
    and g: "generating_function_call (fst (stream_loop n initial_vars (take (Suc m) pos)))"
    and e: "e \<in> set (snd (stream_step n (fst (stream_loop n initial_vars (take k pos))) (pos ! k)))"
    and c: "c \<in> set (choices e)"
  from mk have "take (Suc k) pos = take (Suc m) pos @ drop (Suc m) (take (Suc k) pos)"
    by (metis Suc_le_mono append_take_drop_id min.absorb_iff1 take_take)
  then have "fst (stream_loop n initial_vars (take (Suc k) pos)) =
      fst (stream_loop n (fst (stream_loop n initial_vars (take (Suc m) pos)))
             (drop (Suc m) (take (Suc k) pos)))"
    by (metis stream_loop_append)
  with g have "generating_function_call (fst (stream_loop n initial_vars (take (Suc k) pos)))"
    by (simp add: stream_loop_latch)
  with k have "generating_function_call
      (fst (stream_step n (fst (stream_loop n initial_vars (take k pos))) (pos ! k)))"
    by (simp add: stream_loop_take_Suc)
  then have "snd (stream_step n (fst (stream_loop n initial_vars (take k pos))) (pos ! k)) =
     (if output_token_length (fst (stream_loop n initial_vars (take k pos))) = 0
      then [role_delta (index_v (fst (stream_loop n initial_vars (take k pos))))] else [])"
    by (rule stream_step_buffering)
  with e c show "delta_content (delta c) = None"
    by (auto simp add: role_delta_def split: if_splits)
qed

lemma render_response_stream_events:
  "render_response_stream r outputs n =
     snd (stream_loop n initial_vars (map (\<lambda>ids. process_output_ids_tensor r n ids False) outputs)) @
     stream_finish n
       (fst (stream_loop n initial_vars (map (\<lambda>ids. process_output_ids_tensor r n ids False) outputs)))"
  by (simp add: render_response_stream_def Let_def split_beta)

lemma call_outputs_processed:
  "map (\<lambda>ids. process_output_ids_tensor example_renderer 0 ids False) call_outputs = call_processed"
  by (simp add: call_outputs_def call_processed_def process_output_ids_tensor_def eval_defs)

lemma leaking_outputs_processed:
  "map (\<lambda>ids. process_output_ids_tensor example_renderer 0 ids False) leaking_outputs
     = leaking_processed"
  by (simp add: leaking_outputs_def leaking_processed_def process_output_ids_tensor_def eval_defs)

lemma two_marker_outputs_processed:
  "map (\<lambda>ids. process_output_ids_tensor example_renderer 0 ids False) two_marker_outputs
     = two_marker_processed"
  by (simp add: two_marker_outputs_def two_marker_processed_def process_output_ids_tensor_def eval_defs)

lemma call_loop:
  "stream_loop 0 initial_vars call_processed =
     (initial_vars\<lparr>output_string := py ''abcdefghij\<newline>Action: f\<newline>Action Input: {}'',
        output_length := 37, responded_string := py ''abc'', responded_length := 3,
        output_token_length := 37, generating_function_call := True\<rparr>,
      [role_delta 0, content_delta 0 (py ''abc'') None (usage_info 0 10)])"
  by (simp add: call_processed_def stream_step_def eval_defs ACTION_eq)

lemma leaking_loop:
  "stream_loop 0 initial_vars leaking_processed =
     (initial_vars\<lparr>output_string := py ''a\<newline>Action: f 123456\<newline>Action:'',
        output_length := 26, responded_string := py ''a\<newline>Action: f'', responded_length := 11,
        output_token_length := 26, generating_function_call := True\<rparr>,
      [role_delta 0, content_delta 0 (py ''a\<newline>Action: f'') None (usage_info 0 18)])"
  by (simp add: leaking_processed_def stream_step_def eval_defs ACTION_eq)

lemma two_marker_loop:
  "stream_loop 0 initial_vars two_marker_processed =
     (initial_vars\<lparr>output_string := py ''a\<newline>Action: x\<newline>Action: f\<newline>Action Input: {}'',
        output_length := 38, output_token_length := 38, generating_function_call := True\<rparr>,
      [role_delta 0])"
  by (simp add: two_marker_processed_def stream_step_def eval_defs ACTION_eq)

lemma call_extraction:
  "parse_function_response (py ''defghij\<newline>Action: f\<newline>Action Input: {}'') =
     Some \<lparr>delta_role = None, delta_content = Some (py ''defghij''),
           delta_function_call = Some \<lparr>name = py ''f'', arguments = py ''{}''\<rparr>\<rparr>"
  by (simp add: extraction_defs)

lemma leaking_extraction:
  "parse_function_response (py '' 123456\<newline>Action:'') = None"
  by (simp add: extraction_defs)

lemma two_marker_extraction:
  "parse_function_response (py ''a\<newline>Action: x\<newline>Action: f\<newline>Action Input: {}'') =
     Some \<lparr>delta_role = None, delta_content = Some (py ''a\<newline>Action: x''),
           delta_function_call = Some \<lparr>name = py ''f'', arguments = py ''{}''\<rparr>\<rparr>"
  by (simp add: extraction_defs)

lemma call_render:
  "render_response_stream example_renderer call_outputs 0 =
     [role_delta 0,
      content_delta 0 (py ''abc'') None (usage_info 0 10),
      \<lparr>choices = [\<lparr>index = 0,
                    delta = \<lparr>delta_role = None, delta_content = Some (py ''defghij''),
                             delta_function_call = Some \<lparr>name = py ''f'', arguments = py ''{}''\<rparr>\<rparr>,
                    finish_reason = Some FR_function_call\<rparr>],
        usage = Some (usage_info 0 37)\<rparr>,
      content_delta 1 [] (Some FR_function_call) (usage_info 0 37)]"
proof -
  have sl: "py_slice (py ''abcdefghij\<newline>Action: f\<newline>Action Input: {}'') (Some 3) None =
      py ''defghij\<newline>Action: f\<newline>Action Input: {}''"
    by (simp add: py_slice_from py_def)
  show ?thesis
    by (simp add: render_response_stream_events call_outputs_processed call_loop)
       (simp add: stream_finish_def initial_vars_def sl call_extraction Let_def)
qed

lemma leaking_render:
  "render_response_stream example_renderer leaking_outputs 0 =
     [role_delta 0,
      content_delta 0 (py ''a\<newline>Action: f'') None (usage_info 0 18),
      content_delta 1 (py '' 123456\<newline>Action:'') None (usage_info 0 26),
      content_delta 2 [] (Some FR_stop) (usage_info 0 26)]"
proof -
  have sl: "py_slice (py ''a\<newline>Action: f 123456\<newline>Action:'') (Some 11) None =
      py '' 123456\<newline>Action:''"
    by (simp add: py_slice_from py_def)
  show ?thesis
    by (simp add: render_response_stream_events leaking_outputs_processed leaking_loop)
       (simp add: stream_finish_def initial_vars_def sl leaking_extraction Let_def numeral_2_eq_2)
qed

lemma two_marker_render:
  "render_response_stream example_renderer two_marker_outputs 0 =
     [role_delta 0,
      \<lparr>choices = [\<lparr>index = 0,
                    delta = \<lparr>delta_role = None, delta_content = Some (py ''a\<newline>Action: x''),
                             delta_function_call = Some \<lparr>name = py ''f'', arguments = py ''{}''\<rparr>\<rparr>,
                    finish_reason = Some FR_function_call\<rparr>],
        usage = Some (usage_info 0 38)\<rparr>,
      content_delta 1 [] (Some FR_function_call) (usage_info 0 38)]"
proof -
  have sl: "py_slice (py ''a\<newline>Action: x\<newline>Action: f\<newline>Action Input: {}'') (Some 0) None =
      py ''a\<newline>Action: x\<newline>Action: f\<newline>Action Input: {}''"
    by (simp add: py_slice_from)
  show ?thesis
    by (simp add: render_response_stream_events two_marker_outputs_processed two_marker_loop)
       (simp add: stream_finish_def initial_vars_def sl two_marker_extraction Let_def)
qed

text \<open>
  Claim C1 as stated fails in three ways, each in a run where the latch becomes true.
  When the run ends right after the marker, the extraction fails and the final flush
  yields the unflushed text, marker included. When an output before the latch holds the
  marker in its middle, the streamed delta holds it. When the last output holds the
  marker twice, the content of the function-call delta holds the first one.
\<close>

theorem marker_reaches_content_three_ways:
  "render_response_stream example_renderer [ids_of ''Hi\<newline>Action:''] 0 =
     [role_delta 0,
      content_delta 1 (py ''Hi\<newline>Action:'') None (usage_info 0 10),
      content_delta 2 [] (Some FR_stop) (usage_info 0 10)] \<and>
   generating_function_call (fst (stream_loop 0 initial_vars
      [process_output_ids_tensor example_renderer 0 (ids_of ''Hi\<newline>Action:'') False])) \<and>
   sublist ACTION (py ''Hi\<newline>Action:'') \<and>
   render_response_stream example_renderer leaking_outputs 0 =
     [role_delta 0,
      content_delta 0 (py ''a\<newline>Action: f'') None (usage_info 0 18),
      content_delta 1 (py '' 123456\<newline>Action:'') None (usage_info 0 26),
      content_delta 2 [] (Some FR_stop) (usage_info 0 26)] \<and>
   generating_function_call (fst (stream_loop 0 initial_vars leaking_processed)) \<and>
   sublist ACTION (py ''a\<newline>Action: f'') \<and>
   render_response_stream example_renderer two_marker_outputs 0 =
     [role_delta 0,
      \<lparr>choices = [\<lparr>index = 0,
                    delta = \<lparr>delta_role = None, delta_content = Some (py ''a\<newline>Action: x''),
                             delta_function_call = Some \<lparr>name = py ''f'', arguments = py ''{}''\<rparr>\<rparr>,
                    finish_reason = Some FR_function_call\<rparr>],
        usage = Some (usage_info 0 38)\<rparr>,
      content_delta 1 [] (Some FR_function_call) (usage_info 0 38)] \<and>
   generating_function_call (fst (stream_loop 0 initial_vars two_marker_processed)) \<and>
   sublist ACTION (py ''a\<newline>Action: x'')"
proof -
  have st: "stream_step 0 initial_vars
       \<lparr>output_str = py ''Hi\<newline>Action:'', output_token_length_po = 10, finish_reason_po = None\<rparr> =
     (initial_vars\<lparr>output_string := py ''Hi\<newline>Action:'', output_length := 10,
        output_token_length := 10, generating_function_call := True\<rparr>, [role_delta 0])"
    by (simp add: stream_step_def eval_defs ACTION_eq)
  have sl: "py_slice (py ''Hi\<newline>Action:'') (Some 0) None = py ''Hi\<newline>Action:''"
    by (simp add: py_slice_from)
  have fin: "stream_finish 0 (initial_vars\<lparr>output_string := py ''Hi\<newline>Action:'', output_length := 10,
        output_token_length := 10, generating_function_call := True\<rparr>) =
      [content_delta 1 (py ''Hi\<newline>Action:'') None (usage_info 0 10),
       content_delta 2 [] (Some FR_stop) (usage_info 0 10)]"
    by (simp add: stream_finish_def initial_vars_def sl parse_bare_action Let_def numeral_2_eq_2)
  have a: "render_response_stream example_renderer [ids_of ''Hi\<newline>Action:''] 0 =
     [role_delta 0,
      content_delta 1 (py ''Hi\<newline>Action:'') None (usage_info 0 10),
      content_delta 2 [] (Some FR_stop) (usage_info 0 10)]"
    by (simp add: render_response_stream_def process_latch st fin)
  have b: "generating_function_call (fst (stream_loop 0 initial_vars
      [process_output_ids_tensor example_renderer 0 (ids_of ''Hi\<newline>Action:'') False]))"
    by (simp add: process_latch st)
  have c: "sublist ACTION (py ''Hi\<newline>Action:'')" "sublist ACTION (py ''a\<newline>Action: f'')"
    "sublist ACTION (py ''a\<newline>Action: x'')"
    by (simp_all add: ACTION_eq py_def sublist_code)
  have d: "generating_function_call (fst (stream_loop 0 initial_vars leaking_processed))"
    "generating_function_call (fst (stream_loop 0 initial_vars two_marker_processed))"
    by (simp_all add: leaking_loop two_marker_loop)
  from a b c d leaking_render two_marker_render show ?thesis by blast
qed

lemma call_state1:
  "fst (stream_loop 0 initial_vars (take 1 call_processed)) =
     initial_vars\<lparr>output_string := py ''abcdefghij'', output_length := 10,
        responded_string := py ''abc'', responded_length := 3, output_token_length := 10\<rparr>"
  by (simp add: call_processed_def stream_step_def eval_defs ACTION_eq)

lemma call_state2:
  "generating_function_call (fst (stream_loop 0 initial_vars (take 2 call_processed)))"
  by (simp add: call_processed_def numeral_2_eq_2 stream_step_def eval_defs ACTION_eq)

lemma call_state3:
  "fst (stream_loop 0 initial_vars call_processed) =
     initial_vars\<lparr>output_string := py ''abcdefghij\<newline>Action: f\<newline>Action Input: {}'',
        output_length := 37, responded_string := py ''abc'', responded_length := 3,
        output_token_length := 37, generating_function_call := True\<rparr>"
  by (simp add: call_loop)

theorem no_marker_in_content_of_clean_run_witness:
  "call_processed = map (\<lambda>ids. process_output_ids_tensor example_renderer 0 ids False) call_outputs \<and>
   generating_function_call (fst (stream_loop 0 initial_vars call_processed)) \<and>
   \<not> generating_function_call (fst (stream_loop 0 initial_vars (take 1 call_processed))) \<and>
   \<not> sublist ACTION (strip (output_str (call_processed ! 0))) \<and>
   generating_function_call (fst (stream_loop 0 initial_vars (take 2 call_processed))) \<and>
   parse_function_response
     (py_slice (output_string (fst (stream_loop 0 initial_vars call_processed)))
        (Some (int (responded_length (fst (stream_loop 0 initial_vars call_processed))))) None) =
     Some \<lparr>delta_role = None, delta_content = Some (py ''defghij''),
           delta_function_call = Some \<lparr>name = py ''f'', arguments = py ''{}''\<rparr>\<rparr> \<and>
   output_string (fst (stream_loop 0 initial_vars call_processed)) =
     py ''abcdefghij'' @ ACTION @ py '' f\<newline>Action Input: {}'' \<and>
   \<not> sublist ACTION (py ''abcdefghij'') \<and>
   \<not> sublist ACTION (tl (ACTION @ py '' f\<newline>Action Input: {}'')) \<and>
   content_delta 0 (py ''abc'') None (usage_info 0 10)
     \<in> set (render_response_stream example_renderer call_outputs 0) \<and>
   \<not> sublist ACTION (py ''abc'') \<and>
   \<lparr>choices = [\<lparr>index = 0,
                 delta = \<lparr>delta_role = None, delta_content = Some (py ''defghij''),
                          delta_function_call = Some \<lparr>name = py ''f'', arguments = py ''{}''\<rparr>\<rparr>,
                 finish_reason = Some FR_function_call\<rparr>],
     usage = Some (usage_info 0 37)\<rparr>
     \<in> set (render_response_stream example_renderer call_outputs 0) \<and>
   \<not> sublist ACTION (py ''defghij'') \<and>
   snd (stream_step 0 (fst (stream_loop 0 initial_vars (take 1 call_processed))) (call_processed ! 1)) = []"
proof -
  let ?sf = "fst (stream_loop 0 initial_vars call_processed)"
  let ?X = "py ''abcdefghij''"
  let ?Y = "py '' f\<newline>Action Input: {}''"
  let ?fm = "\<lparr>delta_role = None, delta_content = Some (py ''defghij''),
           delta_function_call = Some \<lparr>name = py ''f'', arguments = py ''{}''\<rparr>\<rparr>"
  let ?e1 = "content_delta 0 (py ''abc'') None (usage_info 0 10)"
  let ?e2 = "\<lparr>choices = [\<lparr>index = 0, delta = ?fm, finish_reason = Some FR_function_call\<rparr>],
     usage = Some (usage_info 0 37)\<rparr>"
  have p: "call_processed = map (\<lambda>ids. process_output_ids_tensor example_renderer 0 ids False) call_outputs"
    by (simp add: call_outputs_processed)
  have g: "generating_function_call ?sf" by (simp add: call_state3)
  have n1: "\<not> generating_function_call (fst (stream_loop 0 initial_vars (take 1 call_processed)))"
    by (simp only: call_state1) (simp add: initial_vars_def)
  have c0: "\<not> sublist ACTION (strip (output_str (call_processed ! 0)))"
    by (simp add: call_processed_def eval_defs ACTION_eq sublist_code)
  have l: "length call_processed = 3" by (simp add: call_processed_def)
  have t3: "take 3 call_processed = call_processed" by (simp add: l)
  have clean: "\<forall>k < length call_processed.
      \<not> generating_function_call (fst (stream_loop 0 initial_vars (take (Suc k) call_processed))) \<longrightarrow>
      \<not> sublist ACTION (strip (output_str (call_processed ! k)))"
  proof (intro allI impI)
    fix k
    assume k: "k < length call_processed"
      and ng: "\<not> generating_function_call (fst (stream_loop 0 initial_vars (take (Suc k) call_processed)))"
    from k l have "k = 0 \<or> k = 1 \<or> k = 2" by auto
    then show "\<not> sublist ACTION (strip (output_str (call_processed ! k)))"
    proof (elim disjE)
      assume "k = 0" with c0 show ?thesis by simp
    next
      assume "k = 1"
      with ng call_state2 show ?thesis by (simp add: numeral_2_eq_2)
    next
      assume "k = 2"
      with ng g t3 show ?thesis by (simp add: numeral_3_eq_3 numeral_2_eq_2)
    qed
  qed
  have sl: "py_slice (output_string ?sf) (Some (int (responded_length ?sf))) None =
      py ''defghij\<newline>Action: f\<newline>Action Input: {}''"
    by (simp only: call_state3) (simp add: initial_vars_def py_slice_from py_def)
  have ex: "parse_function_response
     (py_slice (output_string ?sf) (Some (int (responded_length ?sf))) None) = Some ?fm"
    by (simp only: sl call_extraction)
  then have ok: "parse_function_response
     (py_slice (output_string ?sf) (Some (int (responded_length ?sf))) None) \<noteq> None"
    by simp
  have os: "output_string ?sf = ?X @ ACTION @ ?Y"
    by (simp only: call_state3) (simp add: initial_vars_def py_def ACTION_eq)
  have x: "\<not> sublist ACTION ?X" and y: "\<not> sublist ACTION (tl (ACTION @ ?Y))"
    by (simp_all add: py_def ACTION_eq sublist_code)
  from os x y have once: "\<exists>X Y. output_string ?sf = X @ ACTION @ Y \<and>
             \<not> sublist ACTION X \<and> \<not> sublist ACTION (tl (ACTION @ Y))"
    by blast
  note t = no_marker_in_content_of_clean_run [OF p]
  from t g clean ok once
  have free: "\<forall>e \<in> set (render_response_stream example_renderer call_outputs 0).
      \<forall>c \<in> set (choices e). \<forall>t. delta_content (delta c) = Some t \<longrightarrow> \<not> sublist ACTION t"
    by blast
  have m1: "?e1 \<in> set (render_response_stream example_renderer call_outputs 0)"
    and m2: "?e2 \<in> set (render_response_stream example_renderer call_outputs 0)"
    by (simp_all add: call_render)
  have "\<lparr>index = 0, delta = \<lparr>delta_role = None, delta_content = Some (py ''abc''),
            delta_function_call = None\<rparr>, finish_reason = None\<rparr> \<in> set (choices ?e1)"
    by (simp add: content_delta_def)
  with free m1 have f1: "\<not> sublist ACTION (py ''abc'')" by fastforce
  have "\<lparr>index = 0, delta = ?fm, finish_reason = Some FR_function_call\<rparr> \<in> set (choices ?e2)"
    by simp
  with free m2 have f2: "\<not> sublist ACTION (py ''defghij'')" by fastforce
  have "(1::nat) \<le> 1" "1 < length call_processed" by (simp_all add: l)
  moreover from call_state2 have "generating_function_call
      (fst (stream_loop 0 initial_vars (take (Suc 1) call_processed)))"
    by (simp add: numeral_2_eq_2)
  moreover have st: "snd (stream_step 0 (fst (stream_loop 0 initial_vars (take 1 call_processed)))
              (call_processed ! 1)) = []"
    by (simp only: call_state1)
       (simp add: call_processed_def stream_step_def eval_defs ACTION_eq)
  ultimately have "\<forall>e \<in> set (snd (stream_step 0 (fst (stream_loop 0 initial_vars (take 1 call_processed)))
              (call_processed ! 1))). \<forall>c \<in> set (choices e). delta_content (delta c) = None"
    using t by blast
  from p g n1 c0 call_state2 ex os x y m1 f1 m2 f2 st show ?thesis by blast
qed

end
